theory Spec2Isabelle
  imports Main "HOL-Library.Multiset"
begin

section \<open>Data model (types.ts)\<close>

text \<open>
  The embedding follows \<^verbatim>\<open>src/types.ts\<close> and \<^verbatim>\<open>src/App.tsx\<close>. Optional fields and
  \<^verbatim>\<open>null\<close> are \<open>option\<close> values, JavaScript numbers that hold counts, orders, pixels and
  timestamps are \<open>int\<close>, arrays are lists. Field names that clash with HOL constants
  carry a suffix (\<open>id_of\<close>, \<open>type_of\<close>, \<open>size_of\<close>).
\<close>

datatype FileType = FOLDER | IMAGE | TEXT | VIDEO | AUDIO | PDF | CODE | ARCHIVE | SHEET | UNKNOWN

datatype UserRole = ADMIN | USER | JUNIOR

record User =
  userId :: string
  username :: string
  fullName :: string
  role :: UserRole

record TrashData =
  originalParentId :: "string option"
  dateTrashed :: int

record FileSystemItem =
  id_of :: string
  parentId :: "string option"
  name :: string
  type_of :: FileType
  size_of :: "int option"
  content :: "string option"
  dateModified :: int
  dateCreated :: "int option"
  colorTag :: "string option"
  tags :: "string list"
  order :: int
  position :: "(int \<times> int) option"
  visibleTo :: "UserRole list"
  ownerId :: "string option"
  trashData :: "TrashData option"

datatype WindowType = FINDER | PREVIEW | SETTINGS | AI_CHAT | INFO

text \<open>Of a window only the fields that pick the active Finder folder are kept.\<close>

record WindowState =
  windowType :: WindowType
  isOpen :: bool
  isMinimized :: bool
  zIndex :: int
  currentFolderId :: string

text \<open>
  One entry of a MOVE payload, and the payload of a history action. The source keeps the
  payload untyped and switches on the action's \<^verbatim>\<open>type\<close>; every commit site builds the
  payload that belongs to its type, so type and payload are one tagged value here.
  \<^verbatim>\<open>TAG\<close> is declared in \<^verbatim>\<open>ActionType\<close> but no handler ever commits it.
\<close>

record MovedItem =
  movedId :: string
  oldParentId :: "string option"
  oldOrder :: int
  oldPosition :: "(int \<times> int) option"
  newParentId :: string
  newOrder :: int
  newPosition :: "(int \<times> int) option"

datatype Payload =
    RENAME string string string
  | MOVE "MovedItem list"
  | TRASH "string list"
  | RESTORE "string list"
  | REPOSITION string "(int \<times> int) option" "int \<times> int"
  | SWAP string string int int int int
  | DELETE "FileSystemItem list"
  | CREATE string FileSystemItem
  | PASTE "FileSystemItem list"
  | TAG

record HistoryAction =
  payload :: Payload
  description :: string
  timestamp :: int

record Notification =
  msg :: string
  visible :: bool
  isError :: bool

text \<open>
  The component state of \<^verbatim>\<open>App\<close> that the file-system handlers read or write.
  \<open>uuidCalls\<close> counts the calls of \<^verbatim>\<open>uuidv4()\<close> made so far: the handlers take the
  generator as a function from the call number to the identifier it returns.
\<close>

record AppState =
  files :: "FileSystemItem list"
  windows :: "WindowState list"
  selectedFileIds :: "string list"
  contextMenu :: "(int \<times> int \<times> string option) option"
  renamingId :: "string option"
  currentUser :: "User option"
  clipboard :: "string list option"
  undoStack :: "HistoryAction list"
  redoStack :: "HistoryAction list"
  notification :: "Notification option"
  uuidCalls :: nat

definition TRASH_ID :: string where
  "TRASH_ID = ''trash''"

section \<open>Strings and numbers as JavaScript renders them\<close>

definition digitChar :: "nat \<Rightarrow> char" where
  "digitChar d =
     (if d = 0 then CHR ''0'' else if d = 1 then CHR ''1'' else if d = 2 then CHR ''2''
      else if d = 3 then CHR ''3'' else if d = 4 then CHR ''4'' else if d = 5 then CHR ''5''
      else if d = 6 then CHR ''6'' else if d = 7 then CHR ''7'' else if d = 8 then CHR ''8''
      else CHR ''9'')"

text \<open>A counter inside a template literal: its decimal digits.\<close>

fun show_nat :: "nat \<Rightarrow> string" where
  "show_nat n = (if n < 10 then [digitChar n] else show_nat (n div 10) @ [digitChar (n mod 10)])"

declare show_nat.simps [simp del]

text \<open>\<^verbatim>\<open>x || 'root'\<close> on a parent id: \<^verbatim>\<open>null\<close>, \<^verbatim>\<open>undefined\<close> and the empty string are falsy.\<close>

definition orRoot :: "string option \<Rightarrow> string option" where
  "orRoot x = (case x of None \<Rightarrow> Some ''root'' | Some s \<Rightarrow> if s = [] then Some ''root'' else Some s)"

text \<open>\<^verbatim>\<open>Array.prototype.findIndex\<close>: the first index that satisfies the test, or -1.\<close>

fun findIndex :: "('a \<Rightarrow> bool) \<Rightarrow> 'a list \<Rightarrow> int" where
  "findIndex P [] = - 1"
| "findIndex P (x # xs) =
     (if P x then 0 else (let i = findIndex P xs in if i < 0 then - 1 else i + 1))"

section \<open>Permission logic\<close>

definition isFileVisible :: "User option \<Rightarrow> FileSystemItem \<Rightarrow> bool" where
  "isFileVisible cu item =
     (case cu of
        None \<Rightarrow> False
      | Some u \<Rightarrow> if role u = ADMIN then True else role u \<in> set (visibleTo item))"

definition hasPermission :: "User option \<Rightarrow> FileSystemItem \<Rightarrow> bool" where
  "hasPermission cu item = isFileVisible cu item"

section \<open>Notifications\<close>

definition showNotification :: "string \<Rightarrow> bool \<Rightarrow> AppState \<Rightarrow> AppState" where
  "showNotification m e st = st\<lparr>notification := Some \<lparr>msg = m, visible = True, isError = e\<rparr>\<rparr>"

definition showPermissionError :: "AppState \<Rightarrow> AppState" where
  "showPermissionError st = showNotification ''Permission Denied: Access Restricted'' True st"

section \<open>Visibility and tags\<close>

definition updateVisibility :: "string \<Rightarrow> UserRole list \<Rightarrow> AppState \<Rightarrow> AppState" where
  "updateVisibility itemId updatedVisibleTo st =
     (if map_option role (currentUser st) \<noteq> Some ADMIN then showPermissionError st
      else st\<lparr>files := map (\<lambda>f. if id_of f = itemId then f\<lparr>visibleTo := updatedVisibleTo\<rparr> else f)
                          (files st)\<rparr>)"

definition updateTags :: "string \<Rightarrow> string list \<Rightarrow> AppState \<Rightarrow> AppState" where
  "updateTags itemId ts st =
     st\<lparr>files := map (\<lambda>f. if id_of f = itemId then f\<lparr>tags := ts\<rparr> else f) (files st)\<rparr>"

definition toggleRole :: "UserRole \<Rightarrow> UserRole list \<Rightarrow> UserRole list" where
  "toggleRole r vs = (if r \<in> set vs then filter (\<lambda>x. x \<noteq> r) vs else vs @ [r])"

definition handleVisibilityToggle :: "string \<Rightarrow> UserRole \<Rightarrow> AppState \<Rightarrow> AppState" where
  "handleVisibilityToggle targetId roleToToggle st =
     (if map_option role (currentUser st) \<noteq> Some ADMIN then showPermissionError st
      else
        let idsToUpdate = (if targetId \<in> set (selectedFileIds st) then selectedFileIds st
                           else [targetId])
        in showNotification
             (''Updated visibility for '' @ show_nat (length idsToUpdate) @ '' item(s)'') False
             (st\<lparr>files := map (\<lambda>f. if id_of f \<in> set idsToUpdate
                                    then f\<lparr>visibleTo := toggleRole roleToToggle (visibleTo f)\<rparr>
                                    else f) (files st),
                 contextMenu := None\<rparr>))"

section \<open>History management\<close>

definition commitAction :: "HistoryAction \<Rightarrow> AppState \<Rightarrow> AppState" where
  "commitAction action st = st\<lparr>undoStack := undoStack st @ [action], redoStack := []\<rparr>"

definition setOrderAt :: "int \<Rightarrow> int \<Rightarrow> FileSystemItem list \<Rightarrow> FileSystemItem list" where
  "setOrderAt idx v fs = (if idx > - 1 then fs[nat idx := (fs ! nat idx)\<lparr>order := v\<rparr>] else fs)"

definition swapOrders :: "string \<Rightarrow> string \<Rightarrow> int \<Rightarrow> int \<Rightarrow> FileSystemItem list \<Rightarrow> FileSystemItem list" where
  "swapOrders sourceId targetId sourceOrder targetOrder prev =
     (let sIdx = findIndex (\<lambda>f. id_of f = sourceId) prev;
          tIdx = findIndex (\<lambda>f. id_of f = targetId) prev
      in setOrderAt tIdx targetOrder (setOrderAt sIdx sourceOrder prev))"

text \<open>\<^verbatim>\<open>f.trashData?.originalParentId || 'root'\<close>\<close>

definition restoredParent :: "FileSystemItem \<Rightarrow> string option" where
  "restoredParent f = orRoot (Option.bind (trashData f) originalParentId)"

text \<open>
  The \<^verbatim>\<open>switch\<close> of \<^verbatim>\<open>performUndo\<close>: what undoing an action does to the file array.
  \<open>now\<close> is the reading of \<^verbatim>\<open>Date.now()\<close>. Undoing a RESTORE reads
  \<^verbatim>\<open>action.payload.originalParentId\<close>, a field no RESTORE payload has, so the value
  is \<^verbatim>\<open>undefined\<close>.
\<close>

fun undoFiles :: "int \<Rightarrow> Payload \<Rightarrow> FileSystemItem list \<Rightarrow> FileSystemItem list" where
  "undoFiles now (RENAME i oldName newName) prev =
     map (\<lambda>f. if id_of f = i then f\<lparr>name := oldName\<rparr> else f) prev"
| "undoFiles now (MOVE items) prev =
     map (\<lambda>f. case find (\<lambda>i. movedId i = id_of f) items of
                 Some movedItem \<Rightarrow> f\<lparr>parentId := oldParentId movedItem, order := oldOrder movedItem,
                                     position := oldPosition movedItem\<rparr>
               | None \<Rightarrow> f) prev"
| "undoFiles now (TRASH ids) prev =
     map (\<lambda>f. if id_of f \<in> set ids then f\<lparr>parentId := restoredParent f, trashData := None\<rparr> else f) prev"
| "undoFiles now (RESTORE ids) prev =
     map (\<lambda>f. if id_of f \<in> set ids
               then f\<lparr>parentId := Some TRASH_ID,
                      trashData := Some \<lparr>originalParentId = None, dateTrashed = now\<rparr>\<rparr>
               else f) prev"
| "undoFiles now (REPOSITION i oldPos newPos) prev =
     map (\<lambda>f. if id_of f = i then f\<lparr>position := oldPos\<rparr> else f) prev"
| "undoFiles now (SWAP sourceId targetId sourceOldOrder targetOldOrder sourceNewOrder targetNewOrder) prev =
     swapOrders sourceId targetId sourceOldOrder targetOldOrder prev"
| "undoFiles now (DELETE fs) prev = prev @ fs"
| "undoFiles now (CREATE i item) prev = filter (\<lambda>f. id_of f \<noteq> i) prev"
| "undoFiles now (PASTE newItems) prev =
     filter (\<lambda>f. id_of f \<notin> set (map id_of newItems)) prev"
| "undoFiles now TAG prev = prev"

fun redoFiles :: "int \<Rightarrow> Payload \<Rightarrow> FileSystemItem list \<Rightarrow> FileSystemItem list" where
  "redoFiles now (RENAME i oldName newName) prev =
     map (\<lambda>f. if id_of f = i then f\<lparr>name := newName\<rparr> else f) prev"
| "redoFiles now (MOVE items) prev =
     map (\<lambda>f. case find (\<lambda>i. movedId i = id_of f) items of
                 Some movedItem \<Rightarrow> f\<lparr>parentId := Some (newParentId movedItem),
                                     order := newOrder movedItem,
                                     position := newPosition movedItem\<rparr>
               | None \<Rightarrow> f) prev"
| "redoFiles now (TRASH ids) prev =
     map (\<lambda>f. if id_of f \<in> set ids
               then f\<lparr>parentId := Some TRASH_ID,
                      trashData := Some \<lparr>originalParentId = parentId f, dateTrashed = now\<rparr>\<rparr>
               else f) prev"
| "redoFiles now (RESTORE ids) prev =
     map (\<lambda>f. if id_of f \<in> set ids then f\<lparr>parentId := restoredParent f, trashData := None\<rparr> else f) prev"
| "redoFiles now (REPOSITION i oldPos newPos) prev =
     map (\<lambda>f. if id_of f = i then f\<lparr>position := Some newPos\<rparr> else f) prev"
| "redoFiles now (SWAP sourceId targetId sourceOldOrder targetOldOrder sourceNewOrder targetNewOrder) prev =
     swapOrders sourceId targetId sourceNewOrder targetNewOrder prev"
| "redoFiles now (DELETE fs) prev = filter (\<lambda>f. id_of f \<notin> set (map id_of fs)) prev"
| "redoFiles now (CREATE i item) prev = prev @ [item]"
| "redoFiles now (PASTE newItems) prev = prev @ newItems"
| "redoFiles now TAG prev = prev"

definition performUndo :: "int \<Rightarrow> AppState \<Rightarrow> AppState" where
  "performUndo now st =
     (if undoStack st = [] then st
      else
        let action = last (undoStack st);
            newUndoStack = butlast (undoStack st)
        in showNotification (''Undid '' @ description action) False
             (st\<lparr>files := undoFiles now (payload action) (files st),
                 redoStack := redoStack st @ [action],
                 undoStack := newUndoStack\<rparr>))"

definition performRedo :: "int \<Rightarrow> AppState \<Rightarrow> AppState" where
  "performRedo now st =
     (if redoStack st = [] then st
      else
        let action = last (redoStack st);
            newRedoStack = butlast (redoStack st)
        in showNotification (''Redid '' @ description action) False
             (st\<lparr>files := redoFiles now (payload action) (files st),
                 undoStack := undoStack st @ [action],
                 redoStack := newRedoStack\<rparr>))"

section \<open>Copy and paste\<close>

definition handleCopy :: "string list \<Rightarrow> AppState \<Rightarrow> AppState" where
  "handleCopy ids st =
     (if ids = [] then st
      else showNotification (''Copied '' @ show_nat (length ids) @ '' item(s)'') False
             (st\<lparr>clipboard := Some ids, contextMenu := None\<rparr>))"

text \<open>\<^verbatim>\<open>String.prototype.lastIndexOf\<close> for one character: the last index, or -1.\<close>

definition lastIndexOf :: "char \<Rightarrow> string \<Rightarrow> int" where
  "lastIndexOf c s =
     (let i = findIndex (\<lambda>x. x = c) (rev s) in if i < 0 then - 1 else int (length s) - 1 - i)"

definition startsWith :: "string \<Rightarrow> string \<Rightarrow> bool" where
  "startsWith p s = (take (length p) s = p)"

text \<open>
  The body of the collision loop of \<^verbatim>\<open>copyItemRecursively\<close>: the candidate built from
  the item's own name and the counter.
\<close>

definition copyCandidate :: "string \<Rightarrow> nat \<Rightarrow> string" where
  "copyCandidate itemName counter =
     (let dotIndex = lastIndexOf CHR ''.'' itemName;
          suffix = '' copy'' @ (if counter > 1 then '' '' @ show_nat counter else [])
      in if dotIndex > 0
         then take (nat dotIndex) itemName @ suffix @ drop (nat dotIndex) itemName
         else itemName @ suffix)"

lemma show_nat_length: "10 ^ k \<le> n \<Longrightarrow> k < length (show_nat n)"
proof (induction k arbitrary: n)
  case 0
  show ?case by (subst show_nat.simps) simp
next
  case (Suc k)
  from Suc.prems have big: "10 \<le> n" and "10 ^ k \<le> n div 10"
    using le_trans [of 10 "10 ^ Suc k" n] by (simp_all add: less_eq_div_iff_mult_less_eq)
  then have "k < length (show_nat (n div 10))" using Suc.IH by blast
  with big show ?case by (subst show_nat.simps) simp
qed

lemma length_copyCandidate: "length (show_nat counter) \<le> length (copyCandidate itemName counter) \<or> counter \<le> 1"
  by (simp add: copyCandidate_def Let_def)

definition namesBound :: "FileSystemItem list \<Rightarrow> nat" where
  "namesBound siblings = 10 ^ sum_list (map (\<lambda>f. length (name f)) siblings) + 2"

lemma long_name_unused:
  assumes "namesBound siblings \<le> counter" and "length (show_nat counter) \<le> length s"
  shows "\<not> list_ex (\<lambda>f. name f = s) siblings"
proof
  assume "list_ex (\<lambda>f. name f = s) siblings"
  then obtain f where f: "f \<in> set siblings" "name f = s" by (auto simp: list_ex_iff)
  then have "length s \<le> sum_list (map (\<lambda>f. length (name f)) siblings)"
    using member_le_sum_list [of "length (name f)" "map (\<lambda>f. length (name f)) siblings"] by auto
  moreover have "sum_list (map (\<lambda>f. length (name f)) siblings) < length (show_nat counter)"
    using assms(1) by (intro show_nat_length) (simp add: namesBound_def)
  ultimately show False using assms(2) by simp
qed

function pasteNameLoop :: "FileSystemItem list \<Rightarrow> string \<Rightarrow> string \<Rightarrow> nat \<Rightarrow> string" where
  "pasteNameLoop siblings itemName candidateName counter =
     (if list_ex (\<lambda>f. name f = candidateName) siblings
      then pasteNameLoop siblings itemName (copyCandidate itemName counter) (counter + 1)
      else candidateName)"
  by pat_completeness auto
termination
proof (relation "measure (\<lambda>(siblings, itemName, candidateName, counter).
          2 * (namesBound siblings - counter)
          + (if list_ex (\<lambda>f. name f = candidateName) siblings then 1 else 0))")
  show "wf (measure (\<lambda>(siblings, itemName, candidateName, counter).
          2 * (namesBound siblings - counter)
          + (if list_ex (\<lambda>f. name f = candidateName) siblings then 1 else 0)))"
    by simp
next
  fix siblings :: "FileSystemItem list" and itemName candidateName :: string and counter :: nat
  assume used: "list_ex (\<lambda>f. name f = candidateName) siblings"
  show "((siblings, itemName, copyCandidate itemName counter, counter + 1),
         (siblings, itemName, candidateName, counter))
        \<in> measure (\<lambda>(siblings, itemName, candidateName, counter).
          2 * (namesBound siblings - counter)
          + (if list_ex (\<lambda>f. name f = candidateName) siblings then 1 else 0))"
  proof (cases "namesBound siblings \<le> counter")
    case True
    then have "1 < counter" by (simp add: namesBound_def)
    then have "length (show_nat counter) \<le> length (copyCandidate itemName counter)"
      using length_copyCandidate [of counter itemName] by simp
    from long_name_unused [OF True this] used True show ?thesis by simp
  next
    case False
    then have "namesBound siblings - Suc counter < namesBound siblings - counter" by arith
    with used show ?thesis by simp
  qed
qed

declare pasteNameLoop.simps [simp del]

text \<open>
  \<^verbatim>\<open>copyItemRecursively\<close>. The recursion follows the children of a folder and does not
  end on a folder that is its own ancestor; in the source it then runs until the call stack
  is exhausted and the handler dies with a RangeError. \<open>depth\<close> is the number of nested
  calls the stack allows, and \<open>None\<close> is that error. The result carries the number of
  \<^verbatim>\<open>uuidv4()\<close> calls made so far.
\<close>

function copyItemRecursively ::
    "nat \<Rightarrow> (nat \<Rightarrow> string) \<Rightarrow> int \<Rightarrow> FileSystemItem list \<Rightarrow> nat \<Rightarrow> string \<Rightarrow> string \<Rightarrow> bool
      \<Rightarrow> (FileSystemItem list \<times> nat) option"
  and copyChildren ::
    "nat \<Rightarrow> (nat \<Rightarrow> string) \<Rightarrow> int \<Rightarrow> FileSystemItem list \<Rightarrow> FileSystemItem list \<Rightarrow> string
      \<Rightarrow> FileSystemItem list \<Rightarrow> nat \<Rightarrow> (FileSystemItem list \<times> nat) option"
where
  "copyItemRecursively 0 uuidv4 now fs k itemId newParent isRootOfCopy = None"
| "copyItemRecursively (Suc depth) uuidv4 now fs k itemId newParent isRootOfCopy =
     (case find (\<lambda>f. id_of f = itemId) fs of
        None \<Rightarrow> Some ([], k)
      | Some item \<Rightarrow>
          let newId = uuidv4 k;
              newName = (if isRootOfCopy
                         then pasteNameLoop (filter (\<lambda>f. parentId f = Some newParent) fs)
                                (name item) (name item) 1
                         else name item);
              newPos = (if newParent = ''root''
                        then map_option (\<lambda>(x, y). (x + 20, y + 20)) (position item)
                        else None);
              newItem = item\<lparr>id_of := newId, parentId := Some newParent, name := newName,
                             dateModified := now, dateCreated := Some now, position := newPos,
                             visibleTo := visibleTo item, trashData := None\<rparr>
          in if type_of item = FOLDER
             then copyChildren depth uuidv4 now fs (filter (\<lambda>f. parentId f = Some itemId) fs)
                    newId [newItem] (Suc k)
             else Some ([newItem], Suc k))"
| "copyChildren depth uuidv4 now fs [] newId createdItems k = Some (createdItems, k)"
| "copyChildren depth uuidv4 now fs (child # rest) newId createdItems k =
     (case copyItemRecursively depth uuidv4 now fs k (id_of child) newId False of
        None \<Rightarrow> None
      | Some (items, k') \<Rightarrow> copyChildren depth uuidv4 now fs rest newId (createdItems @ items) k')"
  by pat_completeness auto
termination
  by (relation "inv_image (less_than <*lex*> less_than)
        (\<lambda>x. case x of
               Inl (depth, uuidv4, now, fs, k, itemId, newParent, isRootOfCopy) \<Rightarrow> (depth, 0)
             | Inr (depth, uuidv4, now, fs, children, newId, createdItems, k) \<Rightarrow>
                 (depth, Suc (length children)))")
     auto

text \<open>The \<^verbatim>\<open>forEach\<close> of \<^verbatim>\<open>handlePaste\<close> over the clipboard ids.\<close>

fun pasteAll ::
    "nat \<Rightarrow> (nat \<Rightarrow> string) \<Rightarrow> int \<Rightarrow> FileSystemItem list \<Rightarrow> string \<Rightarrow> string list
      \<Rightarrow> FileSystemItem list \<Rightarrow> nat \<Rightarrow> (FileSystemItem list \<times> nat) option" where
  "pasteAll depth uuidv4 now fs target [] allNewItems k = Some (allNewItems, k)"
| "pasteAll depth uuidv4 now fs target (i # ids) allNewItems k =
     (case copyItemRecursively depth uuidv4 now fs k i target True of
        None \<Rightarrow> None
      | Some (newItems, k') \<Rightarrow> pasteAll depth uuidv4 now fs target ids (allNewItems @ newItems) k')"

text \<open>
  The Finder window on top: open, not minimised, highest \<^verbatim>\<open>zIndex\<close>, the first of them
  in the window array on a tie (\<^verbatim>\<open>sort\<close> is stable).
\<close>

definition activeFinder :: "WindowState list \<Rightarrow> WindowState option" where
  "activeFinder ws =
     (case sort_key (\<lambda>w. - zIndex w)
             (filter (\<lambda>w. windowType w = FINDER \<and> isOpen w \<and> \<not> isMinimized w) ws) of
        [] \<Rightarrow> None
      | w # _ \<Rightarrow> Some w)"

definition activeFolderId :: "AppState \<Rightarrow> string" where
  "activeFolderId st =
     (case activeFinder (windows st) of Some w \<Rightarrow> currentFolderId w | None \<Rightarrow> ''root'')"

text \<open>The write check on a target folder: a folder that exists and is not visible.\<close>

definition targetDenied :: "AppState \<Rightarrow> string \<Rightarrow> bool" where
  "targetDenied st targetFolderId =
     (targetFolderId \<noteq> ''root'' \<and>
      (case find (\<lambda>f. id_of f = targetFolderId) (files st) of
         Some folder \<Rightarrow> \<not> hasPermission (currentUser st) folder
       | None \<Rightarrow> False))"

definition handlePaste :: "nat \<Rightarrow> (nat \<Rightarrow> string) \<Rightarrow> int \<Rightarrow> AppState \<Rightarrow> AppState" where
  "handlePaste depth uuidv4 now st =
     (case clipboard st of
        None \<Rightarrow> st
      | Some ids \<Rightarrow>
          if ids = [] then st
          else
            let targetFolderId = activeFolderId st
            in if targetFolderId = TRASH_ID then showNotification ''Cannot paste into Trash'' True st
               else if startsWith ''tag:'' targetFolderId
               then showNotification ''Cannot paste into Tags view'' True st
               else if targetDenied st targetFolderId then showPermissionError st
               else
                 (case pasteAll depth uuidv4 now (files st) targetFolderId ids [] (uuidCalls st) of
                    None \<Rightarrow> st
                  | Some (allNewItems, k) \<Rightarrow>
                      if allNewItems \<noteq> []
                      then (showNotification (''Pasted '' @ show_nat (length ids) @ '' item(s)'') False
                              (commitAction
                                 \<lparr>payload = PASTE allNewItems,
                                  description = ''Paste '' @ show_nat (length ids) @ '' item(s)'',
                                  timestamp = now\<rparr>
                                 (st\<lparr>files := files st @ allNewItems, uuidCalls := k\<rparr>)))
                           \<lparr>contextMenu := None\<rparr>
                      else st\<lparr>contextMenu := None, uuidCalls := k\<rparr>))"

section \<open>File system handlers\<close>

text \<open>
  \<^verbatim>\<open>String.prototype.trim\<close> on the ASCII white space and line terminators
  (space, tab, line feed, vertical tab, form feed, carriage return).
\<close>

definition isWhiteSpace :: "char \<Rightarrow> bool" where
  "isWhiteSpace c = (c \<in> set [CHR '' '', CHR 0x09, CHR 0x0A, CHR 0x0B, CHR 0x0C, CHR 0x0D])"

definition trim :: "string \<Rightarrow> string" where
  "trim s = rev (dropWhile isWhiteSpace (rev (dropWhile isWhiteSpace s)))"

definition handleRenameConfirm :: "int \<Rightarrow> string \<Rightarrow> string \<Rightarrow> AppState \<Rightarrow> AppState" where
  "handleRenameConfirm now i newName st =
     (case find (\<lambda>f. id_of f = i) (files st) of
        None \<Rightarrow> st
      | Some file \<Rightarrow>
          if parentId file = Some TRASH_ID then st
          else if \<not> hasPermission (currentUser st) file
          then (showPermissionError st)\<lparr>renamingId := None\<rparr>
          else if trim newName \<noteq> [] \<and> name file \<noteq> trim newName
          then (commitAction
                  \<lparr>payload = RENAME i (name file) (trim newName), description = ''Rename'',
                   timestamp = now\<rparr>
                  (st\<lparr>files := map (\<lambda>f. if id_of f = i
                                         then f\<lparr>name := trim newName, dateModified := now\<rparr>
                                         else f) (files st)\<rparr>))
               \<lparr>renamingId := None\<rparr>
          else st\<lparr>renamingId := None\<rparr>)"

text \<open>\<^verbatim>\<open>Math.max(...items.map(f => f.order))\<close> behind its emptiness test.\<close>

definition maxOrderOf :: "FileSystemItem list \<Rightarrow> int" where
  "maxOrderOf items = (case map order items of [] \<Rightarrow> 0 | x # xs \<Rightarrow> fold max xs x)"

text \<open>
  \<^verbatim>\<open>handleMoveToTrash\<close>. The history record is committed whatever \<^verbatim>\<open>itemIds\<close> matched.
\<close>

definition handleMoveToTrash :: "int \<Rightarrow> string list \<Rightarrow> AppState \<Rightarrow> AppState" where
  "handleMoveToTrash now itemIds st =
     (let itemsToTrash = filter (\<lambda>f. id_of f \<in> set itemIds) (files st)
      in if list_ex (\<lambda>f. \<not> hasPermission (currentUser st) f) itemsToTrash
         then showPermissionError st
         else showNotification (show_nat (length itemIds) @ '' item(s) moved to Trash'') False
                ((commitAction
                    \<lparr>payload = TRASH itemIds,
                     description = ''Move '' @ show_nat (length itemIds) @ '' item(s) to Trash'',
                     timestamp = now\<rparr>
                    (st\<lparr>files := map (\<lambda>f. if id_of f \<in> set itemIds
                                           then f\<lparr>parentId := Some TRASH_ID, position := None,
                                                  trashData := Some \<lparr>originalParentId = parentId f,
                                                                     dateTrashed = now\<rparr>\<rparr>
                                           else f) (files st)\<rparr>))
                 \<lparr>contextMenu := None, selectedFileIds := []\<rparr>))"

definition handleRestoreFile :: "int \<Rightarrow> string list \<Rightarrow> AppState \<Rightarrow> AppState" where
  "handleRestoreFile now itemIds st =
     showNotification (show_nat (length itemIds) @ '' item(s) restored'') False
       ((commitAction
           \<lparr>payload = RESTORE itemIds,
            description = ''Restore '' @ show_nat (length itemIds) @ '' item(s)'',
            timestamp = now\<rparr>
           (st\<lparr>files := map (\<lambda>f. if id_of f \<in> set itemIds
                                  then f\<lparr>parentId := restoredParent f, trashData := None\<rparr>
                                  else f) (files st)\<rparr>))
        \<lparr>contextMenu := None, selectedFileIds := []\<rparr>)"

definition handlePermanentDelete :: "int \<Rightarrow> string list \<Rightarrow> AppState \<Rightarrow> AppState" where
  "handlePermanentDelete now itemIds st =
     (let filesToDelete = filter (\<lambda>f. id_of f \<in> set itemIds) (files st)
      in showNotification ''Files permanently deleted'' False
           (((commitAction
                \<lparr>payload = DELETE filesToDelete,
                 description = ''Permanently delete '' @ show_nat (length filesToDelete) @ '' item(s)'',
                 timestamp = now\<rparr> st)
             \<lparr>files := filter (\<lambda>f. id_of f \<notin> set itemIds) (files st)\<rparr>)
            \<lparr>contextMenu := None, selectedFileIds := []\<rparr>))"

definition handleEmptyTrash :: "int \<Rightarrow> AppState \<Rightarrow> AppState" where
  "handleEmptyTrash now st =
     (let trashFiles = filter (\<lambda>f. parentId f = Some TRASH_ID) (files st)
      in if trashFiles = [] then st
         else showNotification ''Trash emptied'' False
                (handlePermanentDelete now (map id_of trashFiles) st))"

text \<open>
  The cycle guard of \<^verbatim>\<open>handleMoveFile\<close>: the walk from the target folder up the parent
  links. \<open>Some True\<close> is the \<^verbatim>\<open>return\<close> at the source, \<open>Some False\<close> the end of the loop,
  and the walk has no value where the source loops for ever (on a parent cycle that does
  not hold the source).
\<close>

partial_function (option) reachesSource ::
    "FileSystemItem list \<Rightarrow> string \<Rightarrow> FileSystemItem option \<Rightarrow> bool option" where
  "reachesSource fs sourceId current =
     (case current of
        None \<Rightarrow> Some False
      | Some c \<Rightarrow>
          if id_of c = sourceId then Some True
          else if parentId c = None \<or> parentId c = Some [] then Some False
          else reachesSource fs sourceId (find (\<lambda>f. Some (id_of f) = parentId c) fs))"

declare reachesSource.simps [code]

text \<open>\<^verbatim>\<open>[...new Set(xs)]\<close>: the first occurrence of every element, in order.\<close>

definition uniqueInOrder :: "'a list \<Rightarrow> 'a list" where
  "uniqueInOrder xs = rev (remdups (rev xs))"

text \<open>
  The \<^verbatim>\<open>map\<close> inside \<^verbatim>\<open>setFiles\<close> of \<^verbatim>\<open>handleMoveFile\<close>, with the two variables it
  writes outside itself: \<^verbatim>\<open>maxOrder\<close> is threaded through the array and the payload
  entries come out with the new array. React runs the updater of the first state update
  of a handler at once, so the payload is filled when the handler tests its length.
\<close>

fun moveItems ::
    "string list \<Rightarrow> string \<Rightarrow> (int \<times> int) option \<Rightarrow> int \<Rightarrow> int \<Rightarrow> FileSystemItem list
      \<Rightarrow> FileSystemItem list \<times> MovedItem list" where
  "moveItems idsToMove target newPos now maxOrder [] = ([], [])"
| "moveItems idsToMove target newPos now maxOrder (f # fs) =
     (if id_of f \<in> set idsToMove \<and> \<not> (parentId f = Some target \<and> newPos = None)
      then
        (case moveItems idsToMove target newPos now (maxOrder + 1) fs of
           (fs', movedItemsPayload) \<Rightarrow>
             (f\<lparr>parentId := Some target, dateModified := now, order := maxOrder + 1,
                position := newPos\<rparr> # fs',
              \<lparr>movedId = id_of f, oldParentId = parentId f, oldOrder = order f,
               oldPosition = position f, newParentId = target, newOrder = maxOrder + 1,
               newPosition = newPos\<rparr> # movedItemsPayload))
      else
        (case moveItems idsToMove target newPos now maxOrder fs of
           (fs', movedItemsPayload) \<Rightarrow> (f # fs', movedItemsPayload)))"

definition sourceDenied :: "AppState \<Rightarrow> string \<Rightarrow> bool" where
  "sourceDenied st sourceId =
     (case find (\<lambda>f. id_of f = sourceId) (files st) of
        Some sourceFile \<Rightarrow> \<not> hasPermission (currentUser st) sourceFile
      | None \<Rightarrow> False)"

definition handleMoveFile ::
    "int \<Rightarrow> string \<Rightarrow> string \<Rightarrow> (int \<times> int) option \<Rightarrow> AppState \<Rightarrow> AppState option" where
  "handleMoveFile now sourceId targetFolderId newPos st =
     (if sourceId = targetFolderId then Some st
      else if sourceDenied st sourceId then Some (showPermissionError st)
      else if targetFolderId = TRASH_ID then Some (handleMoveToTrash now [sourceId] st)
      else if targetDenied st targetFolderId then Some (showPermissionError st)
      else
        (case reachesSource (files st) sourceId
                (find (\<lambda>f. id_of f = targetFolderId) (files st)) of
           None \<Rightarrow> None
         | Some True \<Rightarrow> Some st
         | Some False \<Rightarrow>
             let idsToMove = (if sourceId \<in> set (selectedFileIds st)
                              then uniqueInOrder (selectedFileIds st @ [sourceId])
                              else [sourceId]);
                 targetItems = filter (\<lambda>f. parentId f = Some targetFolderId) (files st);
                 maxOrder = (if targetItems \<noteq> [] then maxOrderOf targetItems else 0)
             in (case moveItems idsToMove targetFolderId newPos now maxOrder (files st) of
                   (newFiles, movedItemsPayload) \<Rightarrow>
                     if movedItemsPayload \<noteq> []
                     then Some (commitAction
                                  \<lparr>payload = MOVE movedItemsPayload,
                                   description = ''Move '' @ show_nat (length movedItemsPayload)
                                       @ '' item'' @ (if length movedItemsPayload > 1 then ''s'' else []),
                                   timestamp = now\<rparr>
                                  (st\<lparr>files := newFiles\<rparr>))
                     else Some (st\<lparr>files := newFiles\<rparr>))))"

definition handleReposition :: "int \<Rightarrow> string \<Rightarrow> int \<times> int \<Rightarrow> AppState \<Rightarrow> AppState" where
  "handleReposition now i newPos st =
     (case find (\<lambda>f. id_of f = i) (files st) of
        None \<Rightarrow> st
      | Some file \<Rightarrow>
          if \<not> hasPermission (currentUser st) file then st
          else commitAction
                 \<lparr>payload = REPOSITION i (position file) newPos, description = ''Reposition'',
                  timestamp = now\<rparr>
                 (st\<lparr>files := map (\<lambda>f. if id_of f = i then f\<lparr>position := Some newPos\<rparr> else f)
                                  (files st)\<rparr>))"

definition handleSwapFile :: "int \<Rightarrow> string \<Rightarrow> string \<Rightarrow> AppState \<Rightarrow> AppState" where
  "handleSwapFile now sourceId targetId st =
     (case (find (\<lambda>f. id_of f = sourceId) (files st), find (\<lambda>f. id_of f = targetId) (files st)) of
        (Some sourceFile, Some targetFile) \<Rightarrow>
          if \<not> hasPermission (currentUser st) sourceFile \<or> \<not> hasPermission (currentUser st) targetFile
          then showPermissionError st
          else
            (commitAction
               \<lparr>payload = SWAP sourceId targetId (order sourceFile) (order targetFile)
                            (order targetFile) (order sourceFile),
                description = ''Reorder'', timestamp = now\<rparr> st)
            \<lparr>files := map (\<lambda>f. if id_of f = sourceId then f\<lparr>order := order targetFile\<rparr>
                               else if id_of f = targetId then f\<lparr>order := order sourceFile\<rparr>
                               else f) (files st)\<rparr>
      | _ \<Rightarrow> st)"

text \<open>The naming loop of \<^verbatim>\<open>handleNewFolderAction\<close>.\<close>

function newFolderNameLoop :: "FileSystemItem list \<Rightarrow> string \<Rightarrow> string \<Rightarrow> nat \<Rightarrow> string" where
  "newFolderNameLoop siblings baseName finalName counter =
     (if list_ex (\<lambda>f. name f = finalName) siblings
      then newFolderNameLoop siblings baseName (baseName @ '' '' @ show_nat counter) (counter + 1)
      else finalName)"
  by pat_completeness auto
termination
proof (relation "measure (\<lambda>(siblings, baseName, finalName, counter).
          2 * (namesBound siblings - counter)
          + (if list_ex (\<lambda>f. name f = finalName) siblings then 1 else 0))")
  show "wf (measure (\<lambda>(siblings, baseName, finalName, counter).
          2 * (namesBound siblings - counter)
          + (if list_ex (\<lambda>f. name f = finalName) siblings then 1 else 0)))"
    by simp
next
  fix siblings :: "FileSystemItem list" and baseName finalName :: string and counter :: nat
  assume used: "list_ex (\<lambda>f. name f = finalName) siblings"
  show "((siblings, baseName, baseName @ '' '' @ show_nat counter, counter + 1),
         (siblings, baseName, finalName, counter))
        \<in> measure (\<lambda>(siblings, baseName, finalName, counter).
          2 * (namesBound siblings - counter)
          + (if list_ex (\<lambda>f. name f = finalName) siblings then 1 else 0))"
  proof (cases "namesBound siblings \<le> counter")
    case True
    have "length (show_nat counter) \<le> length (baseName @ '' '' @ show_nat counter)" by simp
    from long_name_unused [OF True this] used True show ?thesis by simp
  next
    case False
    then have "namesBound siblings - Suc counter < namesBound siblings - counter" by arith
    with used show ?thesis by simp
  qed
qed

declare newFolderNameLoop.simps [simp del]

text \<open>
  \<^verbatim>\<open>handleNewFolderAction\<close>. \<^verbatim>\<open>currentUser!.id\<close> throws when nobody is logged in, before
  any state is set.
\<close>

definition handleNewFolderAction :: "(nat \<Rightarrow> string) \<Rightarrow> int \<Rightarrow> AppState \<Rightarrow> AppState" where
  "handleNewFolderAction uuidv4 now st =
     (let targetParentId = activeFolderId st
      in if targetParentId = TRASH_ID then showNotification ''Cannot create folders in Trash'' True st
         else if startsWith ''tag:'' targetParentId
         then showNotification ''Cannot create folders in Tag view'' True st
         else if targetDenied st targetParentId then showPermissionError st
         else
           (case currentUser st of
              None \<Rightarrow> st
            | Some u \<Rightarrow>
                let parentName = (if activeFinder (windows st) \<noteq> None then ''Finder'' else ''Desktop'');
                    siblings = filter (\<lambda>f. parentId f = Some targetParentId) (files st);
                    finalName = newFolderNameLoop siblings ''Untitled Folder'' ''Untitled Folder'' 2;
                    newFolder = \<lparr>id_of = uuidv4 (uuidCalls st), parentId = Some targetParentId,
                                 name = finalName, type_of = FOLDER, size_of = None, content = None,
                                 dateModified = now, dateCreated = Some now, colorTag = None,
                                 tags = [], order = 1000,
                                 position = (if targetParentId = ''root'' then Some (200, 200) else None),
                                 visibleTo = [USER, JUNIOR], ownerId = Some (userId u),
                                 trashData = None\<rparr>
                in showNotification (''Created folder in '' @ parentName) False
                     ((commitAction
                         \<lparr>payload = CREATE (id_of newFolder) newFolder, description = ''New Folder'',
                          timestamp = now\<rparr>
                         (st\<lparr>files := files st @ [newFolder], uuidCalls := Suc (uuidCalls st)\<rparr>))
                      \<lparr>renamingId := Some (id_of newFolder)\<rparr>)))"

text \<open>
  \<^verbatim>\<open>handleUpload\<close>: the checks it makes at once, and the state update its timer makes
  when the simulated progress reaches 100. The progress is \<^verbatim>\<open>loaded / totalSize\<close>, which
  never reaches 100 when the total size is 0, and the timer throws on
  \<^verbatim>\<open>currentUser!.id\<close> when nobody is logged in. No other handler is taken to run between
  the start and the end of the upload.
\<close>

record UploadFile =
  fileName :: string
  mimeType :: string
  fileSize :: int

definition uploadedType :: "string \<Rightarrow> FileType" where
  "uploadedType t =
     (if startsWith ''image'' t then IMAGE else if startsWith ''video'' t then VIDEO
      else if startsWith ''text'' t then TEXT else UNKNOWN)"

fun uploadedItems ::
    "(nat \<Rightarrow> string) \<Rightarrow> int \<Rightarrow> string \<Rightarrow> string \<Rightarrow> int \<Rightarrow> nat \<Rightarrow> nat \<Rightarrow> UploadFile list
      \<Rightarrow> FileSystemItem list" where
  "uploadedItems uuidv4 now target owner maxOrder k idx [] = []"
| "uploadedItems uuidv4 now target owner maxOrder k idx (f # fl) =
     \<lparr>id_of = uuidv4 (k + idx), parentId = Some target, name = fileName f,
      type_of = uploadedType (mimeType f), size_of = Some (fileSize f), content = None,
      dateModified = now, dateCreated = Some now, colorTag = None, tags = [],
      order = maxOrder + 1 + int idx, position = None, visibleTo = [USER, JUNIOR],
      ownerId = Some owner, trashData = None\<rparr>
     # uploadedItems uuidv4 now target owner maxOrder k (Suc idx) fl"

definition commitUploads :: "int \<Rightarrow> FileSystemItem list \<Rightarrow> AppState \<Rightarrow> AppState" where
  "commitUploads now newFiles st =
     fold (\<lambda>f. commitAction \<lparr>payload = CREATE (id_of f) f, description = ''Upload'',
                              timestamp = now\<rparr>) newFiles st"

definition handleUpload ::
    "(nat \<Rightarrow> string) \<Rightarrow> int \<Rightarrow> UploadFile list \<Rightarrow> string \<Rightarrow> AppState \<Rightarrow> AppState" where
  "handleUpload uuidv4 now fileList targetFolderId st =
     (if targetFolderId = TRASH_ID
      then showNotification ''Cannot upload directly to Trash'' True st
      else if targetDenied st targetFolderId then showPermissionError st
      else
        let totalSize = sum_list (map fileSize fileList);
            folderItems = filter (\<lambda>f. parentId f = Some targetFolderId) (files st);
            maxOrder = (if folderItems \<noteq> [] then maxOrderOf folderItems else 0)
        in if fileList = [] \<or> totalSize \<le> 0 then st
           else
             (case currentUser st of
                None \<Rightarrow> st
              | Some u \<Rightarrow>
                  let newFiles = uploadedItems uuidv4 now targetFolderId (userId u) maxOrder
                                   (uuidCalls st) 0 fileList
                  in commitUploads now newFiles
                       (st\<lparr>files := files st @ newFiles,
                           uuidCalls := uuidCalls st + length fileList\<rparr>)))"

section \<open>Commands\<close>

text \<open>
  The command surface as one type, so that sequences of commands can be run. Every command
  comes with the clock reading of its handler call; \<open>depth\<close> and \<open>uuidv4\<close> are the call
  stack limit and the identifier generator of the run.
\<close>

datatype Command =
    Rename string string
  | MoveFile string string "(int \<times> int) option"
  | Reposition string "int \<times> int"
  | SwapFile string string
  | MoveToTrash "string list"
  | RestoreFile "string list"
  | PermanentDelete "string list"
  | EmptyTrash
  | NewFolder
  | Copy "string list"
  | Paste
  | Upload "UploadFile list" string

fun exec :: "nat \<Rightarrow> (nat \<Rightarrow> string) \<Rightarrow> int \<times> Command \<Rightarrow> AppState \<Rightarrow> AppState option" where
  "exec depth uuidv4 (now, Rename i newName) st = Some (handleRenameConfirm now i newName st)"
| "exec depth uuidv4 (now, MoveFile sourceId targetFolderId newPos) st =
     handleMoveFile now sourceId targetFolderId newPos st"
| "exec depth uuidv4 (now, Reposition i newPos) st = Some (handleReposition now i newPos st)"
| "exec depth uuidv4 (now, SwapFile sourceId targetId) st = Some (handleSwapFile now sourceId targetId st)"
| "exec depth uuidv4 (now, MoveToTrash ids) st = Some (handleMoveToTrash now ids st)"
| "exec depth uuidv4 (now, RestoreFile ids) st = Some (handleRestoreFile now ids st)"
| "exec depth uuidv4 (now, PermanentDelete ids) st = Some (handlePermanentDelete now ids st)"
| "exec depth uuidv4 (now, EmptyTrash) st = Some (handleEmptyTrash now st)"
| "exec depth uuidv4 (now, NewFolder) st = Some (handleNewFolderAction uuidv4 now st)"
| "exec depth uuidv4 (now, Copy ids) st = Some (handleCopy ids st)"
| "exec depth uuidv4 (now, Paste) st = Some (handlePaste depth uuidv4 now st)"
| "exec depth uuidv4 (now, Upload fileList targetFolderId) st =
     Some (handleUpload uuidv4 now fileList targetFolderId st)"


section \<open>The initial state (constants.ts)\<close>

definition VISIBLE_ALL :: "UserRole list" where
  "VISIBLE_ALL = [USER, JUNIOR]"

definition VISIBLE_USER_ONLY :: "UserRole list" where
  "VISIBLE_USER_ONLY = [USER]"

definition VISIBLE_NONE :: "UserRole list" where
  "VISIBLE_NONE = []"

definition initialItem ::
    "string \<Rightarrow> string option \<Rightarrow> string \<Rightarrow> FileType \<Rightarrow> int option \<Rightarrow> string option \<Rightarrow> int \<Rightarrow> int
      \<Rightarrow> UserRole list \<Rightarrow> string list \<Rightarrow> FileSystemItem" where
  "initialItem i p n t sz c now ord vis tgs =
     \<lparr>id_of = i, parentId = p, name = n, type_of = t, size_of = sz, content = c,
      dateModified = now, dateCreated = None, colorTag = None, tags = tgs, order = ord,
      position = None, visibleTo = vis, ownerId = None, trashData = None\<rparr>"

definition INITIAL_FILES :: "int \<Rightarrow> FileSystemItem list" where
  "INITIAL_FILES now =
     [initialItem ''root'' None ''UR System'' FOLDER None None now 0 VISIBLE_ALL [],
      initialItem ''docs'' (Some ''root'') ''Documents'' FOLDER None None now 1 VISIBLE_ALL [''blue''],
      initialItem ''imgs'' (Some ''root'') ''Images'' FOLDER None None now 2 VISIBLE_ALL [],
      initialItem ''proj'' (Some ''docs'') ''Project Alpha'' FOLDER None None now 0 VISIBLE_ALL [''red''],
      initialItem ''note1'' (Some ''docs'') ''Meeting Notes.txt'' TEXT (Some 1024)
        (Some ''Meeting regarding Q4 goals.'') now 1 VISIBLE_ALL [],
      initialItem ''pic1'' (Some ''imgs'') ''Wallpaper.jpg'' IMAGE (Some 2500000) None now 0
        VISIBLE_ALL [''green''],
      initialItem ''mov1'' (Some ''root'') ''Demo Reel.mp4'' VIDEO (Some 450000000) None now 3
        VISIBLE_ALL [],
      initialItem ''readme'' (Some ''root'') ''ReadMe.txt'' TEXT (Some 500) (Some ''Welcome.'') now 4
        VISIBLE_ALL [],
      initialItem ''script1'' (Some ''proj'') ''main.tsx'' CODE (Some 12000)
        (Some ''console.log('Hello World');'') now 0 VISIBLE_USER_ONLY [''purple''],
      initialItem ''pdf1'' (Some ''docs'') ''Confidential.pdf'' PDF (Some 450000) None now 2
        VISIBLE_NONE [''red'', ''gray''],
      initialItem ''arch1'' (Some ''root'') ''Backup.zip'' ARCHIVE (Some 120000000) None now 5
        VISIBLE_NONE [],
      initialItem ''audio1'' (Some ''root'') ''Podcast_Ep1.mp3'' AUDIO (Some 15000000) None now 6
        VISIBLE_ALL [],
      initialItem ''sheet1'' (Some ''docs'') ''Budget_2025.xlsx'' SHEET (Some 25000) None now 3
        VISIBLE_USER_ONLY []]"

definition adminUser :: User where
  "adminUser = \<lparr>userId = ''u_admin'', username = ''admin'', fullName = ''System Administrator'',
                role = ADMIN\<rparr>"


definition juniorUser :: User where
  "juniorUser = \<lparr>userId = ''u_junior'', username = ''junior'', fullName = ''Junior Intern'',
                 role = JUNIOR\<rparr>"

text \<open>The state right after \<open>u\<close> has logged in: the \<^verbatim>\<open>useState\<close> defaults of \<^verbatim>\<open>App\<close>.\<close>

definition initialState :: "int \<Rightarrow> User \<Rightarrow> AppState" where
  "initialState now u =
     \<lparr>files = INITIAL_FILES now, windows = [], selectedFileIds = [], contextMenu = None,
      renamingId = None, currentUser = Some u, clipboard = None, undoStack = [],
      redoStack = [], notification = None, uuidCalls = 0\<rparr>"

text \<open>An identifier generator for worked examples.\<close>

definition exampleUuid :: "nat \<Rightarrow> string" where
  "exampleUuid k = ''uuid-'' @ show_nat k"

section \<open>Notions the properties are stated with\<close>

definition siblingsIn :: "AppState \<Rightarrow> string \<Rightarrow> FileSystemItem list" where
  "siblingsIn st folderId = filter (\<lambda>f. parentId f = Some folderId) (files st)"

text \<open>
  \<open>isDescendantOf fs a d\<close>: \<open>d\<close> names an item of the collection that is \<open>a\<close> itself or
  lies below \<open>a\<close>, following parent links from item to item. An id is looked up as the
  source does (\<^verbatim>\<open>files.find\<close>), and a parent link is a non-empty \<open>parentId\<close>.
\<close>

inductive isDescendantOf :: "FileSystemItem list \<Rightarrow> string \<Rightarrow> string \<Rightarrow> bool"
  for fs :: "FileSystemItem list" and a :: string where
  self: "find (\<lambda>f. id_of f = a) fs = Some c \<Longrightarrow> isDescendantOf fs a a"
| child: "find (\<lambda>f. id_of f = d) fs = Some c \<Longrightarrow> parentId c = Some p \<Longrightarrow> p \<noteq> []
          \<Longrightarrow> isDescendantOf fs a p \<Longrightarrow> isDescendantOf fs a d"

text \<open>
  \<open>copyable fs i\<close>: the items below \<open>i\<close> form a finite tree, so that the recursion of
  \<^verbatim>\<open>copyItemRecursively\<close> from \<open>i\<close> comes to an end.
\<close>

inductive copyable :: "FileSystemItem list \<Rightarrow> string \<Rightarrow> bool"
  for fs :: "FileSystemItem list" where
  absent: "find (\<lambda>f. id_of f = i) fs = None \<Longrightarrow> copyable fs i"
| leaf: "find (\<lambda>f. id_of f = i) fs = Some item \<Longrightarrow> type_of item \<noteq> FOLDER \<Longrightarrow> copyable fs i"
| folder: "find (\<lambda>f. id_of f = i) fs = Some item
           \<Longrightarrow> (\<forall>c\<in>set (filter (\<lambda>f. parentId f = Some i) fs). copyable fs (id_of c))
           \<Longrightarrow> copyable fs i"

definition returnsFrom :: "nat \<Rightarrow> (nat \<Rightarrow> string) \<Rightarrow> int \<Rightarrow> FileSystemItem list \<Rightarrow> string \<Rightarrow> bool" where
  "returnsFrom d gen now fs i \<longleftrightarrow>
     (\<forall>d'\<ge>d. \<forall>k p r. copyItemRecursively d' gen now fs k i p r \<noteq> None)"

text \<open>
  Undo restores what the history record holds, which is not every field: a rename and a
  move stamp \<open>dateModified\<close> and their undo leaves the stamp, and undoing a permanent
  delete appends the removed items at the end of the array. Two collections hold the
  \<open>sameItems\<close> when they agree item by item on every field but \<open>dateModified\<close>, as
  multisets.
\<close>

definition forgetModified :: "FileSystemItem \<Rightarrow> FileSystemItem" where
  "forgetModified f = f\<lparr>dateModified := 0\<rparr>"

definition sameItems :: "FileSystemItem list \<Rightarrow> FileSystemItem list \<Rightarrow> bool" where
  "sameItems xs ys = (mset (map forgetModified xs) = mset (map forgetModified ys))"










section \<open>Worked states\<close>


definition renamedOnce :: AppState where
  "renamedOnce = handleRenameConfirm 1 ''readme'' ''Notes.txt'' (initialState 0 adminUser)"

definition renamedAgain :: AppState where
  "renamedAgain = handleRenameConfirm 3 ''docs'' ''Papers'' (performUndo 2 renamedOnce)"

definition withUntitledFolder :: AppState where
  "withUntitledFolder = handleNewFolderAction exampleUuid 1 (initialState 0 adminUser)"

definition staleSelection :: AppState where
  "staleSelection = performUndo 2 (withUntitledFolder\<lparr>selectedFileIds := [''uuid-0'']\<rparr>)"

definition reportCopied :: AppState where
  "reportCopied =
     handleCopy [''uuid-0'']
       (handleUpload exampleUuid 1 [\<lparr>fileName = ''report.txt'', mimeType = ''text/plain'', fileSize = 2048\<rparr>]
          ''root'' (initialState 0 adminUser))"

definition pastedOnce :: AppState where
  "pastedOnce = handlePaste 100 exampleUuid 2 reportCopied"

definition pastedTwice :: AppState where
  "pastedTwice = handlePaste 100 exampleUuid 3 pastedOnce"


definition finderAt :: "string \<Rightarrow> AppState" where
  "finderAt folderId =
     (initialState 0 adminUser)
       \<lparr>windows := [\<lparr>windowType = FINDER, isOpen = True, isMinimized = False, zIndex = 11,
                      currentFolderId = folderId\<rparr>],
        clipboard := Some [''readme'']\<rparr>"




section \<open>Visibility (C9)\<close>

text \<open>
  C9. For a logged-in user, \<open>isFileVisible\<close> is true when the user's role is ADMIN,
  whatever the item's \<open>visibleTo\<close> holds, and for every other role it is true exactly when
  the role is a member of the item's \<open>visibleTo\<close>.
\<close>

theorem isFileVisible_spec:
  "isFileVisible (Some u) i = (role u = ADMIN \<or> role u \<in> set (visibleTo i))"
  by (simp add: isFileVisible_def)

section \<open>Visibility and tag changes leave the history alone (C10)\<close>

text \<open>
  C10. \<open>updateVisibility\<close>, \<open>updateTags\<close> and \<open>handleVisibilityToggle\<close> leave the undo stack
  and the redo stack as they are; for an ADMIN the first sets the \<open>visibleTo\<close> of the item
  with the given id and the last toggles the role in the \<open>visibleTo\<close> of every targeted
  item, and \<open>updateTags\<close> sets the \<open>tags\<close> of the item with the given id.
\<close>

theorem visibility_and_tags_not_in_history:
  "undoStack (updateVisibility itemId vs st) = undoStack st
   \<and> redoStack (updateVisibility itemId vs st) = redoStack st
   \<and> undoStack (updateTags itemId ts st) = undoStack st
   \<and> redoStack (updateTags itemId ts st) = redoStack st
   \<and> undoStack (handleVisibilityToggle targetId r st) = undoStack st
   \<and> redoStack (handleVisibilityToggle targetId r st) = redoStack st
   \<and> files (updateTags itemId ts st)
       = map (\<lambda>f. if id_of f = itemId then f\<lparr>tags := ts\<rparr> else f) (files st)
   \<and> files (updateVisibility itemId vs (st\<lparr>currentUser := Some adminUser\<rparr>))
       = map (\<lambda>f. if id_of f = itemId then f\<lparr>visibleTo := vs\<rparr> else f) (files st)
   \<and> files (handleVisibilityToggle targetId r (st\<lparr>currentUser := Some adminUser, selectedFileIds := []\<rparr>))
       = map (\<lambda>f. if id_of f = targetId then f\<lparr>visibleTo := toggleRole r (visibleTo f)\<rparr> else f)
           (files st)"
  by (simp add: updateVisibility_def updateTags_def handleVisibilityToggle_def
      showPermissionError_def showNotification_def adminUser_def Let_def)

section \<open>Committing clears the redo stack (C7)\<close>

lemma commitUploads_stacks:
  "undoStack (commitUploads now fs st) \<noteq> undoStack st \<Longrightarrow> redoStack (commitUploads now fs st) = []"
  unfolding commitUploads_def
  by (induction fs arbitrary: st rule: rev_induct) (auto simp: commitAction_def)

lemmas handler_defs =
  handleRenameConfirm_def handleMoveFile_def handleReposition_def handleSwapFile_def
  handleMoveToTrash_def handleRestoreFile_def handlePermanentDelete_def handleEmptyTrash_def
  handleNewFolderAction_def handleCopy_def handlePaste_def handleUpload_def

lemmas effect_defs = showNotification_def showPermissionError_def commitAction_def

lemma exec_commit_clears_redo:
  assumes "exec depth gen c st = Some st'" and "undoStack st' \<noteq> undoStack st"
  shows "redoStack st' = []"
proof -
  obtain now cmd where c: "c = (now, cmd)" by (cases c)
  show ?thesis
  proof (cases cmd)
    case (Upload fl t)
    with assms c show ?thesis
      using commitUploads_stacks
      by (auto simp: handleUpload_def effect_defs Let_def split: if_splits option.splits)
  qed (use assms c in \<open>auto simp: handler_defs effect_defs Let_def
         split: if_splits option.splits prod.splits bool.splits\<close>)
qed

lemmas example_defs = initialState_def INITIAL_FILES_def initialItem_def adminUser_def
  VISIBLE_ALL_def VISIBLE_USER_ONLY_def VISIBLE_NONE_def TRASH_ID_def

text \<open>
  C7. \<open>commitAction\<close> empties the redo stack, so \<open>performRedo\<close> after an undo followed by a
  commit changes nothing; and after an undo, every command that adds to the undo stack
  leaves a state that \<open>performRedo\<close> does not change.
\<close>

theorem commit_clears_redo:
  "redoStack (commitAction a st) = []
   \<and> performRedo now' (commitAction a (performUndo now st)) = commitAction a (performUndo now st)
   \<and> (exec depth gen c (performUndo now st) = Some st' \<and> undoStack st' \<noteq> undoStack (performUndo now st)
        \<longrightarrow> performRedo now' st' = st')"
  using exec_commit_clears_redo [of depth gen c "performUndo now st" st']
  by (auto simp: performRedo_def commitAction_def)

theorem commit_clears_redo_witness:
  "redoStack (performUndo 2 renamedOnce) \<noteq> []
   \<and> exec 9 exampleUuid (3, Rename ''docs'' ''Papers'') (performUndo 2 renamedOnce) = Some renamedAgain
   \<and> undoStack renamedAgain \<noteq> undoStack (performUndo 2 renamedOnce)
   \<and> performRedo 4 renamedAgain = renamedAgain"
proof -
  have a: "redoStack (performUndo 2 renamedOnce) \<noteq> []" by code_simp
  have b: "exec 9 exampleUuid (3, Rename ''docs'' ''Papers'') (performUndo 2 renamedOnce) = Some renamedAgain"
    by (simp add: renamedAgain_def)
  have c: "undoStack renamedAgain \<noteq> undoStack (performUndo 2 renamedOnce)" by code_simp
  from commit_clears_redo [where st = renamedOnce and now = 2 and now' = 4 and depth = 9
      and gen = exampleUuid and c = "(3, Rename ''docs'' ''Papers'')" and st' = renamedAgain] b c
  have "performRedo 4 renamedAgain = renamedAgain" by blast
  with a b c show ?thesis by blast
qed

section \<open>Operations that affect nothing (C3)\<close>

text \<open>
  C3 asks that an operation that affects no item commits no history record. Renaming to
  the same name and moving to the current parent do commit nothing:
\<close>

lemma noop_rename_commits_nothing:
  assumes "find (\<lambda>f. id_of f = i) (files st) = Some file" and "trim newName = name file"
  shows "files (handleRenameConfirm now i newName st) = files st
         \<and> undoStack (handleRenameConfirm now i newName st) = undoStack st
         \<and> redoStack (handleRenameConfirm now i newName st) = redoStack st"
  using assms by (simp add: handleRenameConfirm_def effect_defs)

lemma moveItems_nothing_moved:
  "moveItems ids target newPos now maxOrder fs = (fs', []) \<Longrightarrow> fs' = fs"
  by (induction fs arbitrary: fs' maxOrder) (auto split: if_splits prod.splits)

lemma noop_move_commits_nothing:
  assumes "handleMoveFile now sourceId target newPos st = Some st'"
    and "target \<noteq> TRASH_ID" and "undoStack st' = undoStack st"
  shows "files st' = files st"
  using assms moveItems_nothing_moved
  by (auto simp: handleMoveFile_def effect_defs Let_def
      split: if_splits option.splits bool.splits prod.splits)

text \<open>
  C3, where the code departs from it. \<open>handleMoveToTrash\<close>, \<open>handleRestoreFile\<close> and
  \<open>handlePermanentDelete\<close> commit their record before looking at what the id list
  matched: with an empty id list, or with an id that no item carries, the collection is
  unchanged and the undo stack still grows by one record. The last case is reached from
  the keyboard: a new folder is selected, its creation undone, and Delete pressed on the
  selection that still names it; the empty TRASH record also clears the redo stack.
\<close>

theorem empty_targets_still_commit:
  "files (handleMoveToTrash now [] st) = files st
   \<and> undoStack (handleMoveToTrash now [] st)
       = undoStack st @ [\<lparr>payload = TRASH [], description = ''Move 0 item(s) to Trash'', timestamp = now\<rparr>]
   \<and> files (handleRestoreFile now [] st) = files st
   \<and> undoStack (handleRestoreFile now [] st)
       = undoStack st @ [\<lparr>payload = RESTORE [], description = ''Restore 0 item(s)'', timestamp = now\<rparr>]
   \<and> files (handlePermanentDelete now [] st) = files st
   \<and> undoStack (handlePermanentDelete now [] st)
       = undoStack st @ [\<lparr>payload = DELETE [], description = ''Permanently delete 0 item(s)'', timestamp = now\<rparr>]
   \<and> files (handleMoveToTrash 1 [''ghost''] (initialState 0 adminUser)) = INITIAL_FILES 0
   \<and> undoStack (handleMoveToTrash 1 [''ghost''] (initialState 0 adminUser))
       = [\<lparr>payload = TRASH [''ghost''], description = ''Move 1 item(s) to Trash'', timestamp = 1\<rparr>]
   \<and> selectedFileIds staleSelection = [''uuid-0'']
   \<and> files staleSelection = INITIAL_FILES 0
   \<and> length (redoStack staleSelection) = 1
   \<and> files (handleMoveToTrash 3 (selectedFileIds staleSelection) staleSelection) = files staleSelection
   \<and> undoStack (handleMoveToTrash 3 (selectedFileIds staleSelection) staleSelection)
       = undoStack staleSelection
         @ [\<lparr>payload = TRASH [''uuid-0''], description = ''Move 1 item(s) to Trash'', timestamp = 3\<rparr>]
   \<and> redoStack (handleMoveToTrash 3 (selectedFileIds staleSelection) staleSelection) = []"
proof -
  have general:
    "files (handleMoveToTrash now [] st) = files st
     \<and> undoStack (handleMoveToTrash now [] st)
         = undoStack st @ [\<lparr>payload = TRASH [], description = ''Move 0 item(s) to Trash'', timestamp = now\<rparr>]
     \<and> files (handleRestoreFile now [] st) = files st
     \<and> undoStack (handleRestoreFile now [] st)
         = undoStack st @ [\<lparr>payload = RESTORE [], description = ''Restore 0 item(s)'', timestamp = now\<rparr>]
     \<and> files (handlePermanentDelete now [] st) = files st
     \<and> undoStack (handlePermanentDelete now [] st)
         = undoStack st @ [\<lparr>payload = DELETE [], description = ''Permanently delete 0 item(s)'', timestamp = now\<rparr>]"
    by (simp add: handleMoveToTrash_def handleRestoreFile_def handlePermanentDelete_def effect_defs
        show_nat.simps digitChar_def)
  have ghost1: "files (handleMoveToTrash 1 [''ghost''] (initialState 0 adminUser)) = INITIAL_FILES 0"
    by code_simp
  have ghost2: "undoStack (handleMoveToTrash 1 [''ghost''] (initialState 0 adminUser))
       = [\<lparr>payload = TRASH [''ghost''], description = ''Move 1 item(s) to Trash'', timestamp = 1\<rparr>]"
    by code_simp
  have stale:
    "selectedFileIds staleSelection = [''uuid-0'']"
    "files staleSelection = INITIAL_FILES 0"
    "length (redoStack staleSelection) = 1"
    "files (handleMoveToTrash 3 (selectedFileIds staleSelection) staleSelection) = files staleSelection"
    "undoStack (handleMoveToTrash 3 (selectedFileIds staleSelection) staleSelection)
       = undoStack staleSelection
         @ [\<lparr>payload = TRASH [''uuid-0''], description = ''Move 1 item(s) to Trash'', timestamp = 3\<rparr>]"
    "redoStack (handleMoveToTrash 3 (selectedFileIds staleSelection) staleSelection) = []"
    by code_simp+
  from general ghost1 ghost2 stale show ?thesis by blast
qed

section \<open>Naming a new folder (C6)\<close>

lemma newFolderNameLoop_spec:
  "\<not> list_ex (\<lambda>f. name f = newFolderNameLoop siblings base cand counter) siblings
   \<and> (if \<not> list_ex (\<lambda>f. name f = cand) siblings
       then newFolderNameLoop siblings base cand counter = cand
       else \<exists>k\<ge>counter. newFolderNameLoop siblings base cand counter = base @ '' '' @ show_nat k
              \<and> (\<forall>j. counter \<le> j \<and> j < k \<longrightarrow> list_ex (\<lambda>f. name f = base @ '' '' @ show_nat j) siblings))"
proof (induction siblings base cand counter rule: newFolderNameLoop.induct)
  case (1 siblings baseName finalName counter)
  show ?case
  proof (cases "list_ex (\<lambda>f. name f = finalName) siblings")
    case False
    then show ?thesis by (simp add: newFolderNameLoop.simps)
  next
    case True
    let ?next = "baseName @ '' '' @ show_nat counter"
    have eq: "newFolderNameLoop siblings baseName finalName counter
              = newFolderNameLoop siblings baseName ?next (counter + 1)"
      using True by (subst newFolderNameLoop.simps) simp
    note IH = "1.IH" [OF True]
    show ?thesis
    proof (cases "list_ex (\<lambda>f. name f = ?next) siblings")
      case False
      with IH have "newFolderNameLoop siblings baseName ?next (counter + 1) = ?next" by simp
      with True False eq show ?thesis by auto
    next
      case used: True
      with IH obtain k where k: "counter + 1 \<le> k"
        "newFolderNameLoop siblings baseName ?next (counter + 1) = baseName @ '' '' @ show_nat k"
        "\<forall>j. counter + 1 \<le> j \<and> j < k \<longrightarrow> list_ex (\<lambda>f. name f = baseName @ '' '' @ show_nat j) siblings"
        by auto
      have "\<forall>j. counter \<le> j \<and> j < k \<longrightarrow> list_ex (\<lambda>f. name f = baseName @ '' '' @ show_nat j) siblings"
      proof (intro allI impI)
        fix j assume j: "counter \<le> j \<and> j < k"
        show "list_ex (\<lambda>f. name f = baseName @ '' '' @ show_nat j) siblings"
        proof (cases "j = counter")
          case True then show ?thesis using used by simp
        next
          case False then show ?thesis using j k(3) by auto
        qed
      qed
      moreover have "\<not> list_ex (\<lambda>f. name f = newFolderNameLoop siblings baseName finalName counter) siblings"
        using IH eq by simp
      ultimately show ?thesis using True eq k(1,2) by (auto intro!: exI [of _ k])
    qed
  qed
qed

text \<open>
  C6, as the code has it. Where a folder can be created (the active folder is neither
  the trash nor a tag view, is writable, and a user is logged in), the new folder is
  appended to the collection as a child of the active folder, under the first name of
  \<open>Untitled Folder\<close>, \<open>Untitled Folder 2\<close>, \<open>Untitled Folder 3\<close>, ... that no sibling
  there has.
\<close>

theorem new_folder_name_scheme:
  assumes "activeFolderId st \<noteq> TRASH_ID" and "\<not> startsWith ''tag:'' (activeFolderId st)"
    and "\<not> targetDenied st (activeFolderId st)" and "currentUser st = Some u"
  shows "\<exists>newFolder.
           files (handleNewFolderAction gen now st) = files st @ [newFolder]
           \<and> parentId newFolder = Some (activeFolderId st)
           \<and> \<not> list_ex (\<lambda>f. name f = name newFolder) (siblingsIn st (activeFolderId st))
           \<and> (if \<not> list_ex (\<lambda>f. name f = ''Untitled Folder'') (siblingsIn st (activeFolderId st))
               then name newFolder = ''Untitled Folder''
               else \<exists>k\<ge>2. name newFolder = ''Untitled Folder'' @ '' '' @ show_nat k
                      \<and> (\<forall>j. 2 \<le> j \<and> j < k \<longrightarrow>
                            list_ex (\<lambda>f. name f = ''Untitled Folder'' @ '' '' @ show_nat j)
                              (siblingsIn st (activeFolderId st))))"
proof -
  let ?sib = "siblingsIn st (activeFolderId st)"
  let ?r = "newFolderNameLoop ?sib ''Untitled Folder'' ''Untitled Folder'' 2"
  have "\<exists>nf. files (handleNewFolderAction gen now st) = files st @ [nf]
          \<and> parentId nf = Some (activeFolderId st) \<and> name nf = ?r"
    using assms by (simp add: handleNewFolderAction_def effect_defs Let_def siblingsIn_def)
  then obtain nf where nf: "files (handleNewFolderAction gen now st) = files st @ [nf]"
    "parentId nf = Some (activeFolderId st)" "name nf = ?r" by blast
  show ?thesis
    using nf(1,2) newFolderNameLoop_spec [of ?sib "''Untitled Folder''" "''Untitled Folder''" 2]
    unfolding nf(3) [symmetric] by (intro exI [of _ nf]) blast
qed

theorem new_folder_name_scheme_witness:
  "activeFolderId withUntitledFolder \<noteq> TRASH_ID
   \<and> \<not> startsWith ''tag:'' (activeFolderId withUntitledFolder)
   \<and> \<not> targetDenied withUntitledFolder (activeFolderId withUntitledFolder)
   \<and> currentUser withUntitledFolder = Some adminUser
   \<and> list_ex (\<lambda>f. name f = ''Untitled Folder'') (siblingsIn withUntitledFolder (activeFolderId withUntitledFolder))
   \<and> (\<exists>newFolder.
           files (handleNewFolderAction exampleUuid 2 withUntitledFolder) = files withUntitledFolder @ [newFolder]
           \<and> (\<exists>k\<ge>2. name newFolder = ''Untitled Folder'' @ '' '' @ show_nat k))"
proof -
  have h1: "activeFolderId withUntitledFolder \<noteq> TRASH_ID" by code_simp
  have h2: "\<not> startsWith ''tag:'' (activeFolderId withUntitledFolder)" by code_simp
  have h3: "\<not> targetDenied withUntitledFolder (activeFolderId withUntitledFolder)" by code_simp
  have h4: "currentUser withUntitledFolder = Some adminUser" by code_simp
  have used: "list_ex (\<lambda>f. name f = ''Untitled Folder'') (siblingsIn withUntitledFolder (activeFolderId withUntitledFolder))"
    by code_simp
  from new_folder_name_scheme [OF h1 h2 h3 h4, of exampleUuid 2] used h1 h2 h3 h4
  show ?thesis by auto
qed

text \<open>
  C6 as stated fails: beside a sibling named \<open>Untitled Folder\<close> the new folder is named
  \<open>Untitled Folder 2\<close>, while the paste scheme probes \<open>Untitled Folder copy\<close> first.
\<close>

theorem new_folder_copy_scheme_counterexample:
  "name (last (files (handleNewFolderAction exampleUuid 2 withUntitledFolder))) = ''Untitled Folder 2''
   \<and> pasteNameLoop (siblingsIn withUntitledFolder ''root'') ''Untitled Folder'' ''Untitled Folder'' 1
       = ''Untitled Folder copy''
   \<and> name (last (files (handleNewFolderAction exampleUuid 2 withUntitledFolder)))
       \<noteq> pasteNameLoop (siblingsIn withUntitledFolder ''root'') ''Untitled Folder'' ''Untitled Folder'' 1"
  by code_simp

section \<open>Name collisions on paste (C5)\<close>

lemma pasteNameLoop_spec:
  "\<not> list_ex (\<lambda>f. name f = pasteNameLoop siblings itemName cand counter) siblings
   \<and> (if \<not> list_ex (\<lambda>f. name f = cand) siblings
       then pasteNameLoop siblings itemName cand counter = cand
       else \<exists>k\<ge>counter. pasteNameLoop siblings itemName cand counter = copyCandidate itemName k
              \<and> (\<forall>j. counter \<le> j \<and> j < k \<longrightarrow> list_ex (\<lambda>f. name f = copyCandidate itemName j) siblings))"
proof (induction siblings itemName cand counter rule: pasteNameLoop.induct)
  case (1 siblings itemName candidateName counter)
  show ?case
  proof (cases "list_ex (\<lambda>f. name f = candidateName) siblings")
    case False
    then show ?thesis by (simp add: pasteNameLoop.simps)
  next
    case True
    let ?next = "copyCandidate itemName counter"
    have eq: "pasteNameLoop siblings itemName candidateName counter
              = pasteNameLoop siblings itemName ?next (counter + 1)"
      using True by (subst pasteNameLoop.simps) simp
    note IH = "1.IH" [OF True]
    show ?thesis
    proof (cases "list_ex (\<lambda>f. name f = ?next) siblings")
      case False
      with IH have "pasteNameLoop siblings itemName ?next (counter + 1) = ?next" by simp
      with True False eq show ?thesis by auto
    next
      case used: True
      with IH obtain k where k: "counter + 1 \<le> k"
        "pasteNameLoop siblings itemName ?next (counter + 1) = copyCandidate itemName k"
        "\<forall>j. counter + 1 \<le> j \<and> j < k \<longrightarrow> list_ex (\<lambda>f. name f = copyCandidate itemName j) siblings"
        by auto
      have "\<forall>j. counter \<le> j \<and> j < k \<longrightarrow> list_ex (\<lambda>f. name f = copyCandidate itemName j) siblings"
      proof (intro allI impI)
        fix j assume j: "counter \<le> j \<and> j < k"
        show "list_ex (\<lambda>f. name f = copyCandidate itemName j) siblings"
        proof (cases "j = counter")
          case True then show ?thesis using used by simp
        next
          case False then show ?thesis using j k(3) by auto
        qed
      qed
      moreover have "\<not> list_ex (\<lambda>f. name f = pasteNameLoop siblings itemName candidateName counter) siblings"
        using IH eq by simp
      ultimately show ?thesis using True eq k(1,2) by (auto intro!: exI [of _ k])
    qed
  qed
qed

lemma findIndex_first:
  "\<forall>x\<in>set xs. \<not> P x \<Longrightarrow> P y \<Longrightarrow> findIndex P (xs @ y # ys) = int (length xs)"
  by (induction xs) (auto simp: Let_def)

lemma findIndex_none: "\<forall>x\<in>set xs. \<not> P x \<Longrightarrow> findIndex P xs = - 1"
  by (induction xs) (auto simp: Let_def)

lemma lastIndexOf_split:
  assumes "c \<notin> set ext"
  shows "lastIndexOf c (base @ c # ext) = int (length base)"
proof -
  have "\<forall>x\<in>set (rev ext). \<not> x = c" using assms by auto
  from findIndex_first [where P = "\<lambda>x. x = c", OF this, of c "rev base"]
  have "findIndex (\<lambda>x. x = c) (rev ext @ c # rev base) = int (length ext)" by simp
  then show ?thesis by (simp add: lastIndexOf_def Let_def)
qed

lemma lastIndexOf_absent:
  assumes "c \<notin> set s"
  shows "lastIndexOf c s = - 1"
proof -
  have "\<forall>x\<in>set (rev s). \<not> x = c" using assms by auto
  from findIndex_none [where P = "\<lambda>x. x = c", OF this]
  have "findIndex (\<lambda>x. x = c) (rev s) = - 1" .
  then show ?thesis by (simp add: lastIndexOf_def Let_def)
qed

lemma copyCandidate_extension:
  "base \<noteq> [] \<Longrightarrow> CHR ''.'' \<notin> set ext \<Longrightarrow>
   copyCandidate (base @ ''.'' @ ext) c
     = base @ '' copy'' @ (if 1 < c then '' '' @ show_nat c else []) @ ''.'' @ ext"
  using lastIndexOf_split [of "CHR ''.''" ext base]
  by (simp add: copyCandidate_def Let_def)

lemma copyCandidate_plain:
  "CHR ''.'' \<notin> set nm \<Longrightarrow>
   copyCandidate nm c = nm @ '' copy'' @ (if 1 < c then '' '' @ show_nat c else [])"
  using lastIndexOf_absent [of "CHR ''.''" nm]
  by (simp add: copyCandidate_def Let_def)

lemma copyChildren_prefix:
  "copyChildren depth gen now fs children newId acc k = Some (r, k') \<Longrightarrow> \<exists>rest. r = acc @ rest"
proof (induction children arbitrary: acc k)
  case Nil
  then show ?case by simp
next
  case (Cons child rest)
  then show ?case by (fastforce split: option.splits prod.splits)
qed

lemma copy_head_name:
  assumes "find (\<lambda>f. id_of f = i) fs = Some item"
    and "copyItemRecursively depth gen now fs k i p isRoot = Some (items, k')"
  shows "items \<noteq> [] \<and> id_of (hd items) = gen k \<and> parentId (hd items) = Some p
         \<and> name (hd items) = (if isRoot
              then pasteNameLoop (filter (\<lambda>f. parentId f = Some p) fs) (name item) (name item) 1
              else name item)"
proof (cases depth)
  case 0
  with assms show ?thesis by simp
next
  case (Suc d)
  show ?thesis
  proof (cases "type_of item = FOLDER")
    case False
    with assms Suc show ?thesis by (auto simp: Let_def)
  next
    case True
    with assms Suc obtain newItem where
      c: "copyChildren d gen now fs (filter (\<lambda>f. parentId f = Some i) fs) (gen k) [newItem] (Suc k) = Some (items, k')"
      and n: "id_of newItem = gen k" "parentId newItem = Some p"
        "name newItem = (if isRoot
              then pasteNameLoop (filter (\<lambda>f. parentId f = Some p) fs) (name item) (name item) 1
              else name item)"
      by (auto simp: Let_def)
    from copyChildren_prefix [OF c] obtain rest where "items = [newItem] @ rest" by blast
    with n show ?thesis by simp
  qed
qed

lemma paste_single:
  assumes "clipboard st = Some [i]" and "activeFolderId st \<noteq> TRASH_ID"
    and "\<not> startsWith ''tag:'' (activeFolderId st)" and "\<not> targetDenied st (activeFolderId st)"
    and "find (\<lambda>f. id_of f = i) (files st) = Some item"
    and "copyItemRecursively depth gen now (files st) (uuidCalls st) i (activeFolderId st) True = Some (items, k')"
  shows "files (handlePaste depth gen now st) = files st @ items \<and> items \<noteq> []
         \<and> name (hd items)
            = pasteNameLoop (siblingsIn st (activeFolderId st)) (name item) (name item) 1"
  using assms copy_head_name [OF assms(5,6)]
  by (simp add: handlePaste_def effect_defs siblingsIn_def)

lemma copyChildren_total:
  assumes "\<forall>c\<in>set ch. \<forall>k. copyItemRecursively d gen now fs k (id_of c) newId False \<noteq> None"
  shows "copyChildren d gen now fs ch newId acc k \<noteq> None"
  using assms
proof (induction ch arbitrary: acc k)
  case Nil
  then show ?case by simp
next
  case (Cons c ch)
  from Cons.prems obtain its k1 where
    "copyItemRecursively d gen now fs k (id_of c) newId False = Some (its, k1)"
    by (metis list.set_intros(1) not_None_eq surj_pair)
  moreover have "copyChildren d gen now fs ch newId (acc @ its) k1 \<noteq> None"
    using Cons.IH Cons.prems by simp
  ultimately show ?case by simp
qed

lemma returnsFrom_all:
  assumes "\<forall>c\<in>set ch. \<exists>d. returnsFrom d gen now fs (id_of c)"
  shows "\<exists>d. \<forall>c\<in>set ch. returnsFrom d gen now fs (id_of c)"
  using assms
proof (induction ch)
  case Nil
  then show ?case by simp
next
  case (Cons c ch)
  then obtain d1 d2 where d1: "returnsFrom d1 gen now fs (id_of c)"
    and d2: "\<forall>c\<in>set ch. returnsFrom d2 gen now fs (id_of c)" by auto
  have "\<forall>c'\<in>set (c # ch). returnsFrom (max d1 d2) gen now fs (id_of c')"
    using d1 d2 by (auto simp: returnsFrom_def)
  then show ?case by blast
qed

lemma copyable_returns: "copyable fs i \<Longrightarrow> \<exists>d. returnsFrom d gen now fs i"
proof (induction rule: copyable.induct)
  case (absent i)
  have "copyItemRecursively d' gen now fs k i p r \<noteq> None" if "1 \<le> d'" for d' k p r
    using that absent by (cases d') simp_all
  then show ?case unfolding returnsFrom_def by blast
next
  case (leaf i item)
  have "copyItemRecursively d' gen now fs k i p r \<noteq> None" if "1 \<le> d'" for d' k p r
    using that leaf by (cases d') (simp_all add: Let_def)
  then show ?case unfolding returnsFrom_def by blast
next
  case (folder i item)
  let ?ch = "filter (\<lambda>f. parentId f = Some i) fs"
  from folder have "\<forall>c\<in>set ?ch. \<exists>d. returnsFrom d gen now fs (id_of c)" by blast
  from returnsFrom_all [OF this] obtain d where
    d: "\<forall>c\<in>set ?ch. returnsFrom d gen now fs (id_of c)" by blast
  have "copyItemRecursively d' gen now fs k i p r \<noteq> None" if "Suc d \<le> d'" for d' k p r
  proof -
    from that obtain d'' where d'': "d' = Suc d''" "d \<le> d''" by (cases d') auto
    have "\<forall>c\<in>set ?ch. \<forall>k. copyItemRecursively d'' gen now fs k (id_of c) newId False \<noteq> None" for newId
      using d d''(2) by (simp add: returnsFrom_def)
    from copyChildren_total [OF this] show ?thesis
      using folder(1) by (simp add: d''(1) Let_def)
  qed
  then show ?case unfolding returnsFrom_def by blast
qed

text \<open>
  C5. The worked case: \<open>report.txt\<close> is uploaded to the desktop, copied, and pasted
  twice; the clones are named \<open>report copy.txt\<close> and \<open>report copy 2.txt\<close>. In general
  the candidate for counter \<open>c\<close> keeps the extension after the last dot
  (\<open>base copy.ext\<close>, \<open>base copy 2.ext\<close>, ...) and is \<open>name copy\<close>, \<open>name copy 2\<close>, ...
  for a name without a dot; a paste of one clipboard item appends the clones to the
  collection, and the top-level clone gets a name no sibling of the target folder has:
  the item's own name when that is free, else the first free candidate. A clone made with
  \<open>isRootOfCopy\<close> false (the children of a pasted folder) keeps the item's name. The copy
  of an item that is not a folder returns at any positive depth, and the copy of an item
  with a finite tree below it returns at every depth from some depth on.
\<close>

theorem paste_name_collision:
  "name (last (files pastedOnce)) = ''report copy.txt''
   \<and> name (last (files pastedTwice)) = ''report copy 2.txt''
   \<and> (base \<noteq> [] \<and> CHR ''.'' \<notin> set ext \<longrightarrow>
         copyCandidate (base @ ''.'' @ ext) c
           = base @ '' copy'' @ (if 1 < c then '' '' @ show_nat c else []) @ ''.'' @ ext)
   \<and> (CHR ''.'' \<notin> set nm \<longrightarrow>
         copyCandidate nm c = nm @ '' copy'' @ (if 1 < c then '' '' @ show_nat c else []))
   \<and> (clipboard st = Some [i] \<and> activeFolderId st \<noteq> TRASH_ID
        \<and> \<not> startsWith ''tag:'' (activeFolderId st) \<and> \<not> targetDenied st (activeFolderId st)
        \<and> find (\<lambda>f. id_of f = i) (files st) = Some item
        \<and> copyItemRecursively depth gen now (files st) (uuidCalls st) i (activeFolderId st) True
            = Some (items, k')
       \<longrightarrow> files (handlePaste depth gen now st) = files st @ items \<and> items \<noteq> []
           \<and> \<not> list_ex (\<lambda>f. name f = name (hd items)) (siblingsIn st (activeFolderId st))
           \<and> (if \<not> list_ex (\<lambda>f. name f = name item) (siblingsIn st (activeFolderId st))
               then name (hd items) = name item
               else \<exists>n\<ge>1. name (hd items) = copyCandidate (name item) n
                      \<and> (\<forall>j. 1 \<le> j \<and> j < n \<longrightarrow>
                            list_ex (\<lambda>f. name f = copyCandidate (name item) j)
                              (siblingsIn st (activeFolderId st)))))
   \<and> (find (\<lambda>f. id_of f = i) fs = Some item
        \<and> copyItemRecursively depth gen now fs k i p False = Some (items, k')
       \<longrightarrow> name (hd items) = name item)
   \<and> (find (\<lambda>f. id_of f = i) fs = Some item \<and> type_of item \<noteq> FOLDER
       \<longrightarrow> (\<exists>clone. copyItemRecursively (Suc depth) gen now fs k i p r = Some ([clone], Suc k)))
   \<and> (copyable fs i
       \<longrightarrow> (\<exists>d. \<forall>d'\<ge>d. \<forall>k p r. copyItemRecursively d' gen now fs k i p r \<noteq> None))"
proof -
  have a: "name (last (files pastedOnce)) = ''report copy.txt''" by code_simp
  have b: "name (last (files pastedTwice)) = ''report copy 2.txt''" by code_simp
  have c: "base \<noteq> [] \<and> CHR ''.'' \<notin> set ext \<longrightarrow>
         copyCandidate (base @ ''.'' @ ext) c
           = base @ '' copy'' @ (if 1 < c then '' '' @ show_nat c else []) @ ''.'' @ ext"
    using copyCandidate_extension by blast
  have d: "CHR ''.'' \<notin> set nm \<longrightarrow>
         copyCandidate nm c = nm @ '' copy'' @ (if 1 < c then '' '' @ show_nat c else [])"
    using copyCandidate_plain by blast
  have e: "files (handlePaste depth gen now st) = files st @ items \<and> items \<noteq> []
           \<and> \<not> list_ex (\<lambda>f. name f = name (hd items)) (siblingsIn st (activeFolderId st))
           \<and> (if \<not> list_ex (\<lambda>f. name f = name item) (siblingsIn st (activeFolderId st))
               then name (hd items) = name item
               else \<exists>n\<ge>1. name (hd items) = copyCandidate (name item) n
                      \<and> (\<forall>j. 1 \<le> j \<and> j < n \<longrightarrow>
                            list_ex (\<lambda>f. name f = copyCandidate (name item) j)
                              (siblingsIn st (activeFolderId st))))"
    if "clipboard st = Some [i]" "activeFolderId st \<noteq> TRASH_ID"
      "\<not> startsWith ''tag:'' (activeFolderId st)" "\<not> targetDenied st (activeFolderId st)"
      "find (\<lambda>f. id_of f = i) (files st) = Some item"
      "copyItemRecursively depth gen now (files st) (uuidCalls st) i (activeFolderId st) True = Some (items, k')"
  proof -
    note p = paste_single [OF that]
    from p have nm: "name (hd items)
        = pasteNameLoop (siblingsIn st (activeFolderId st)) (name item) (name item) 1" by simp
    show ?thesis
      using p pasteNameLoop_spec [of "siblingsIn st (activeFolderId st)" "name item" "name item" 1]
      unfolding nm [symmetric] by blast
  qed
  have f: "find (\<lambda>f. id_of f = i) fs = Some item
        \<and> copyItemRecursively depth gen now fs k i p False = Some (items, k')
       \<longrightarrow> name (hd items) = name item"
    using copy_head_name [of i fs item depth gen now k p False items k'] by simp
  have g: "find (\<lambda>f. id_of f = i) fs = Some item \<and> type_of item \<noteq> FOLDER
       \<longrightarrow> (\<exists>clone. copyItemRecursively (Suc depth) gen now fs k i p r = Some ([clone], Suc k))"
    by (simp add: Let_def)
  have h: "copyable fs i
       \<longrightarrow> (\<exists>d. \<forall>d'\<ge>d. \<forall>k p r. copyItemRecursively d' gen now fs k i p r \<noteq> None)"
    using copyable_returns [of fs i gen now] by (simp add: returnsFrom_def)
  from a b c d e f g h show ?thesis by blast
qed

theorem paste_name_collision_witness:
  "''report'' \<noteq> [] \<and> CHR ''.'' \<notin> set ''txt''
   \<and> copyCandidate (''report'' @ ''.'' @ ''txt'') 2 = ''report copy 2.txt''
   \<and> CHR ''.'' \<notin> set ''Documents'' \<and> copyCandidate ''Documents'' 1 = ''Documents copy''
   \<and> clipboard reportCopied = Some [''uuid-0''] \<and> activeFolderId reportCopied \<noteq> TRASH_ID
   \<and> \<not> startsWith ''tag:'' (activeFolderId reportCopied)
   \<and> \<not> targetDenied reportCopied (activeFolderId reportCopied)
   \<and> find (\<lambda>f. id_of f = ''uuid-0'') (files reportCopied) = Some (last (files reportCopied))
   \<and> copyItemRecursively 100 exampleUuid 2 (files reportCopied) (uuidCalls reportCopied) ''uuid-0''
        (activeFolderId reportCopied) True = Some (drop 14 (files pastedOnce), 2)
   \<and> files (handlePaste 100 exampleUuid 2 reportCopied)
       = files reportCopied @ drop 14 (files pastedOnce)
   \<and> list_ex (\<lambda>f. name f = name (last (files reportCopied)))
        (siblingsIn reportCopied (activeFolderId reportCopied))
   \<and> (\<exists>n\<ge>1. name (hd (drop 14 (files pastedOnce))) = copyCandidate (name (last (files reportCopied))) n)
   \<and> copyItemRecursively 100 exampleUuid 2 (files reportCopied) 1 ''uuid-0'' ''docs'' False
       = Some (fst (the (copyItemRecursively 100 exampleUuid 2 (files reportCopied) 1 ''uuid-0'' ''docs'' False)), 2)
   \<and> name (hd (fst (the (copyItemRecursively 100 exampleUuid 2 (files reportCopied) 1 ''uuid-0'' ''docs'' False))))
       = name (last (files reportCopied))
   \<and> type_of (last (files reportCopied)) \<noteq> FOLDER
   \<and> (\<exists>clone. copyItemRecursively (Suc 0) exampleUuid 2 (files reportCopied) 1 ''uuid-0'' ''docs'' True
                 = Some ([clone], Suc 1))
   \<and> copyable (files reportCopied) ''uuid-0''
   \<and> (\<exists>d. \<forall>d'\<ge>d. \<forall>k p r. copyItemRecursively d' exampleUuid 2 (files reportCopied) k ''uuid-0'' p r \<noteq> None)"
proof -
  have h1: "''report'' \<noteq> [] \<and> CHR ''.'' \<notin> set ''txt''" by simp
  have h2: "CHR ''.'' \<notin> set ''Documents''" by simp
  have h3: "clipboard reportCopied = Some [''uuid-0'']" by code_simp
  have h4: "activeFolderId reportCopied \<noteq> TRASH_ID" by code_simp
  have h5: "\<not> startsWith ''tag:'' (activeFolderId reportCopied)" by code_simp
  have h6: "\<not> targetDenied reportCopied (activeFolderId reportCopied)" by code_simp
  have h7: "find (\<lambda>f. id_of f = ''uuid-0'') (files reportCopied) = Some (last (files reportCopied))"
    by code_simp
  have h8: "copyItemRecursively 100 exampleUuid 2 (files reportCopied) (uuidCalls reportCopied) ''uuid-0''
        (activeFolderId reportCopied) True = Some (drop 14 (files pastedOnce), 2)" by code_simp
  have h9: "list_ex (\<lambda>f. name f = name (last (files reportCopied)))
        (siblingsIn reportCopied (activeFolderId reportCopied))" by code_simp
  have h10: "copyItemRecursively 100 exampleUuid 2 (files reportCopied) 1 ''uuid-0'' ''docs'' False
       = Some (fst (the (copyItemRecursively 100 exampleUuid 2 (files reportCopied) 1 ''uuid-0'' ''docs'' False)), 2)"
    by code_simp
  note t1 = paste_name_collision [where base = "''report''" and ext = "''txt''" and c = 2
      and nm = "''Documents''" and st = reportCopied and i = "''uuid-0''"
      and item = "last (files reportCopied)" and depth = 100 and gen = exampleUuid and now = 2
      and items = "drop 14 (files pastedOnce)" and k' = 2]
  note t2 = paste_name_collision [where nm = "''Documents''" and c = 1 and i = "''uuid-0''"
      and fs = "files reportCopied" and item = "last (files reportCopied)" and depth = 100
      and gen = exampleUuid and now = 2 and k = 1 and p = "''docs''" and k' = 2
      and items = "fst (the (copyItemRecursively 100 exampleUuid 2 (files reportCopied) 1 ''uuid-0'' ''docs'' False))"]
  have c1: "copyCandidate (''report'' @ ''.'' @ ''txt'') 2 = ''report copy 2.txt''"
    using t1 h1 by (simp add: show_nat.simps digitChar_def)
  have c2: "copyCandidate ''Documents'' 1 = ''Documents copy''"
    using t2 h2 by simp
  have c3: "files (handlePaste 100 exampleUuid 2 reportCopied)
       = files reportCopied @ drop 14 (files pastedOnce)"
    using t1 h3 h4 h5 h6 h7 h8 by blast
  have c4: "\<exists>n\<ge>1. name (hd (drop 14 (files pastedOnce))) = copyCandidate (name (last (files reportCopied))) n"
  proof -
    from t1 h3 h4 h5 h6 h7 h8
    have "if \<not> list_ex (\<lambda>f. name f = name (last (files reportCopied)))
                (siblingsIn reportCopied (activeFolderId reportCopied))
          then name (hd (drop 14 (files pastedOnce))) = name (last (files reportCopied))
          else \<exists>n\<ge>1. name (hd (drop 14 (files pastedOnce)))
                        = copyCandidate (name (last (files reportCopied))) n
                 \<and> (\<forall>j. 1 \<le> j \<and> j < n \<longrightarrow>
                       list_ex (\<lambda>f. name f = copyCandidate (name (last (files reportCopied))) j)
                         (siblingsIn reportCopied (activeFolderId reportCopied)))"
      by blast
    with h9 show ?thesis by auto
  qed
  have c5: "name (hd (fst (the (copyItemRecursively 100 exampleUuid 2 (files reportCopied) 1 ''uuid-0'' ''docs'' False))))
       = name (last (files reportCopied))"
    using t2 h7 h10 by blast
  have h11: "type_of (last (files reportCopied)) \<noteq> FOLDER" by code_simp
  have h12: "copyable (files reportCopied) ''uuid-0''"
    by (rule copyable.leaf [OF h7 h11])
  note t3 = paste_name_collision [where i = "''uuid-0''" and fs = "files reportCopied"
      and item = "last (files reportCopied)" and depth = 0 and gen = exampleUuid and now = 2
      and k = 1 and p = "''docs''" and r = True]
  have c6: "\<exists>clone. copyItemRecursively (Suc 0) exampleUuid 2 (files reportCopied) 1 ''uuid-0'' ''docs'' True
                 = Some ([clone], Suc 1)"
    using t3 h7 h11 by blast
  have c7: "\<exists>d. \<forall>d'\<ge>d. \<forall>k p r. copyItemRecursively d' exampleUuid 2 (files reportCopied) k ''uuid-0'' p r \<noteq> None"
    using t3 h12 by blast
  from h1 h2 h3 h4 h5 h6 h7 h8 h9 h10 h11 h12 c1 c2 c3 c4 c5 c6 c7 show ?thesis by blast
qed

section \<open>The cycle guard of a move (C2)\<close>

lemma find_id: "find (\<lambda>f. id_of f = d) fs = Some c \<Longrightarrow> id_of c = d"
  by (auto simp: find_Some_iff)

lemma reachesSource_descendant:
  "isDescendantOf fs a d \<Longrightarrow> reachesSource fs a (find (\<lambda>f. id_of f = d) fs) = Some True"
proof (induction rule: isDescendantOf.induct)
  case (self c)
  then show ?case using find_id [OF self] by (subst reachesSource.simps) simp
next
  case (child d c p)
  have "(\<lambda>f. Some (id_of f) = Some p) = (\<lambda>f. id_of f = p)" by auto
  with child show ?case by (subst reachesSource.simps) simp
qed

lemma move_into_descendant_rejected:
  assumes "d = a \<or> isDescendantOf (files st) a d" and "d \<noteq> TRASH_ID"
  shows "handleMoveFile now a d pos st
         = Some (if d \<noteq> a \<and> (sourceDenied st a \<or> targetDenied st d) then showPermissionError st else st)"
  using assms reachesSource_descendant [of "files st" a d]
  by (auto simp: handleMoveFile_def)


section \<open>Invalid destinations (C8)\<close>

lemma tag_view_not_trash: "startsWith ''tag:'' x \<Longrightarrow> x \<noteq> TRASH_ID"
  by (auto simp: startsWith_def TRASH_ID_def)

text \<open>
  C8, as the code has it. With a non-empty clipboard, pasting while the active folder is
  the trash or a tag view, creating a folder there, and uploading into the trash, each
  return the state with nothing changed but an error notification (\<open>isError\<close> set) that
  names the refusal. Moving an item into itself returns the state unchanged, with no
  notification; moving it into one of its descendants leaves the collection and both
  stacks unchanged, and the whole state unchanged when source and target are visible to
  the user (otherwise the permission error is shown).
\<close>

theorem invalid_destination_recovery:
  "(clipboard st = Some ids \<and> ids \<noteq> [] \<and> activeFolderId st = TRASH_ID
      \<longrightarrow> handlePaste depth gen now st = showNotification ''Cannot paste into Trash'' True st)
   \<and> (clipboard st = Some ids \<and> ids \<noteq> [] \<and> startsWith ''tag:'' (activeFolderId st)
      \<longrightarrow> handlePaste depth gen now st = showNotification ''Cannot paste into Tags view'' True st)
   \<and> (activeFolderId st = TRASH_ID
      \<longrightarrow> handleNewFolderAction gen now st = showNotification ''Cannot create folders in Trash'' True st)
   \<and> (startsWith ''tag:'' (activeFolderId st)
      \<longrightarrow> handleNewFolderAction gen now st = showNotification ''Cannot create folders in Tag view'' True st)
   \<and> handleUpload gen now fileList TRASH_ID st = showNotification ''Cannot upload directly to Trash'' True st
   \<and> files (showNotification m True st) = files st
   \<and> undoStack (showNotification m True st) = undoStack st
   \<and> redoStack (showNotification m True st) = redoStack st
   \<and> notification (showNotification m True st) = Some \<lparr>msg = m, visible = True, isError = True\<rparr>
   \<and> handleMoveFile now a a pos st = Some st
   \<and> (isDescendantOf (files st) a d \<and> d \<noteq> TRASH_ID
      \<longrightarrow> (\<exists>st'. handleMoveFile now a d pos st = Some st' \<and> files st' = files st
                 \<and> undoStack st' = undoStack st \<and> redoStack st' = redoStack st
                 \<and> (st' = st \<or> sourceDenied st a \<or> targetDenied st d)))"
proof -
  have paste: "clipboard st = Some ids \<and> ids \<noteq> [] \<and> activeFolderId st = TRASH_ID
      \<longrightarrow> handlePaste depth gen now st = showNotification ''Cannot paste into Trash'' True st"
    "clipboard st = Some ids \<and> ids \<noteq> [] \<and> startsWith ''tag:'' (activeFolderId st)
      \<longrightarrow> handlePaste depth gen now st = showNotification ''Cannot paste into Tags view'' True st"
    using tag_view_not_trash [of "activeFolderId st"] by (auto simp: handlePaste_def)
  have folder: "activeFolderId st = TRASH_ID
      \<longrightarrow> handleNewFolderAction gen now st = showNotification ''Cannot create folders in Trash'' True st"
    "startsWith ''tag:'' (activeFolderId st)
      \<longrightarrow> handleNewFolderAction gen now st = showNotification ''Cannot create folders in Tag view'' True st"
    using tag_view_not_trash [of "activeFolderId st"] by (auto simp: handleNewFolderAction_def)
  have upload: "handleUpload gen now fileList TRASH_ID st
                = showNotification ''Cannot upload directly to Trash'' True st"
    by (simp add: handleUpload_def)
  have notif: "files (showNotification m True st) = files st"
    "undoStack (showNotification m True st) = undoStack st"
    "redoStack (showNotification m True st) = redoStack st"
    "notification (showNotification m True st) = Some \<lparr>msg = m, visible = True, isError = True\<rparr>"
    by (simp_all add: showNotification_def)
  have self: "handleMoveFile now a a pos st = Some st"
    by (simp add: handleMoveFile_def)
  have desc: "isDescendantOf (files st) a d \<and> d \<noteq> TRASH_ID
      \<longrightarrow> (\<exists>st'. handleMoveFile now a d pos st = Some st' \<and> files st' = files st
                 \<and> undoStack st' = undoStack st \<and> redoStack st' = redoStack st
                 \<and> (st' = st \<or> sourceDenied st a \<or> targetDenied st d))"
    using move_into_descendant_rejected [of d a st now pos]
    by (auto simp: effect_defs)
  from paste folder upload notif self desc show ?thesis by blast
qed

theorem invalid_destination_recovery_witness:
  "clipboard (finderAt ''trash'') = Some [''readme''] \<and> [''readme''] \<noteq> ([] :: string list)
   \<and> activeFolderId (finderAt ''trash'') = TRASH_ID
   \<and> handlePaste 100 exampleUuid 1 (finderAt ''trash'')
       = showNotification ''Cannot paste into Trash'' True (finderAt ''trash'')
   \<and> handleNewFolderAction exampleUuid 1 (finderAt ''trash'')
       = showNotification ''Cannot create folders in Trash'' True (finderAt ''trash'')
   \<and> clipboard (finderAt ''tag:red'') = Some [''readme'']
   \<and> startsWith ''tag:'' (activeFolderId (finderAt ''tag:red''))
   \<and> handlePaste 100 exampleUuid 1 (finderAt ''tag:red'')
       = showNotification ''Cannot paste into Tags view'' True (finderAt ''tag:red'')
   \<and> handleNewFolderAction exampleUuid 1 (finderAt ''tag:red'')
       = showNotification ''Cannot create folders in Tag view'' True (finderAt ''tag:red'')
   \<and> isDescendantOf (files (initialState 0 adminUser)) ''docs'' ''script1'' \<and> ''script1'' \<noteq> TRASH_ID
   \<and> handleMoveFile 1 ''docs'' ''script1'' None (initialState 0 adminUser) = Some (initialState 0 adminUser)"
proof -
  have h1: "clipboard (finderAt ''trash'') = Some [''readme'']" by code_simp
  have h2: "activeFolderId (finderAt ''trash'') = TRASH_ID" by code_simp
  have h3: "clipboard (finderAt ''tag:red'') = Some [''readme'']" by code_simp
  have h4: "startsWith ''tag:'' (activeFolderId (finderAt ''tag:red''))" by code_simp
  have f1: "find (\<lambda>f. id_of f = ''docs'') (files (initialState 0 adminUser))
            = Some (files (initialState 0 adminUser) ! 1)" by code_simp
  have f2: "find (\<lambda>f. id_of f = ''proj'') (files (initialState 0 adminUser))
            = Some (files (initialState 0 adminUser) ! 3)" by code_simp
  have f3: "find (\<lambda>f. id_of f = ''script1'') (files (initialState 0 adminUser))
            = Some (files (initialState 0 adminUser) ! 8)" by code_simp
  have p2: "parentId (files (initialState 0 adminUser) ! 3) = Some ''docs''" by code_simp
  have p3: "parentId (files (initialState 0 adminUser) ! 8) = Some ''proj''" by code_simp
  have d1: "isDescendantOf (files (initialState 0 adminUser)) ''docs'' ''docs''"
    by (rule isDescendantOf.self [OF f1])
  have d2: "isDescendantOf (files (initialState 0 adminUser)) ''docs'' ''proj''"
    by (rule isDescendantOf.child [OF f2 p2 _ d1]) simp
  have h5: "isDescendantOf (files (initialState 0 adminUser)) ''docs'' ''script1''"
    by (rule isDescendantOf.child [OF f3 p3 _ d2]) simp
  have h6: "''script1'' \<noteq> TRASH_ID" by code_simp
  have h7: "\<not> sourceDenied (initialState 0 adminUser) ''docs''" by code_simp
  have h8: "\<not> targetDenied (initialState 0 adminUser) ''script1''" by code_simp
  note t1 = invalid_destination_recovery [where st = "finderAt ''trash''" and ids = "[''readme'']"
      and depth = 100 and gen = exampleUuid and now = 1]
  note t2 = invalid_destination_recovery [where st = "finderAt ''tag:red''" and ids = "[''readme'']"
      and depth = 100 and gen = exampleUuid and now = 1]
  note t3 = invalid_destination_recovery [where st = "initialState 0 adminUser" and a = "''docs''"
      and d = "''script1''" and now = 1 and pos = None]
  have c1: "handlePaste 100 exampleUuid 1 (finderAt ''trash'')
       = showNotification ''Cannot paste into Trash'' True (finderAt ''trash'')"
    using t1 h1 h2 by blast
  have c2: "handleNewFolderAction exampleUuid 1 (finderAt ''trash'')
       = showNotification ''Cannot create folders in Trash'' True (finderAt ''trash'')"
    using t1 h2 by blast
  have c3: "handlePaste 100 exampleUuid 1 (finderAt ''tag:red'')
       = showNotification ''Cannot paste into Tags view'' True (finderAt ''tag:red'')"
    using t2 h3 h4 by blast
  have c4: "handleNewFolderAction exampleUuid 1 (finderAt ''tag:red'')
       = showNotification ''Cannot create folders in Tag view'' True (finderAt ''tag:red'')"
    using t2 h4 by blast
  have c5: "handleMoveFile 1 ''docs'' ''script1'' None (initialState 0 adminUser) = Some (initialState 0 adminUser)"
    using t3 h5 h6 h7 h8 by blast
  from h1 h2 h3 h4 h5 h6 c1 c2 c3 c4 c5 show ?thesis by simp
qed

text \<open>
  C8 as stated fails on the notification: a folder moved into itself, or into its child,
  is refused silently. The state comes back as it was, its \<open>notification\<close> still empty.
\<close>

theorem silent_move_rejection_counterexample:
  "handleMoveFile 1 ''docs'' ''docs'' None (initialState 0 adminUser) = Some (initialState 0 adminUser)
   \<and> handleMoveFile 1 ''docs'' ''proj'' None (initialState 0 adminUser) = Some (initialState 0 adminUser)
   \<and> notification (initialState 0 adminUser) = None"
  by code_simp

section \<open>Trash and restore (C4)\<close>





section \<open>Undo and redo over command sequences (C1)\<close>

lemma sameItems_refl [simp]: "sameItems xs xs"
  by (simp add: sameItems_def)




lemma id_of_forgetModified [simp]: "id_of (forgetModified f) = id_of f"
  by (simp add: forgetModified_def)

lemma forgetModified_idem [simp]: "forgetModified (forgetModified f) = forgetModified f"
  by (simp add: forgetModified_def)

lemma sameItems_ids: "sameItems xs ys \<Longrightarrow> mset (map id_of xs) = mset (map id_of ys)"
proof -
  assume "sameItems xs ys"
  then have "image_mset id_of (mset (map forgetModified xs)) = image_mset id_of (mset (map forgetModified ys))"
    by (simp add: sameItems_def)
  then show ?thesis by (simp add: image_mset.compositionality comp_def)
qed


lemma sameItems_set_ids: "sameItems xs ys \<Longrightarrow> id_of ` set xs = id_of ` set ys"
  using sameItems_ids [of xs ys] mset_eq_setD [of "map id_of xs" "map id_of ys"] by simp




text \<open>With unique ids, the index updates of a swap are a map over the array.\<close>

lemma findIndex_bounds: "findIndex P xs < int (length xs) \<and> - 1 \<le> findIndex P xs"
  by (induction xs) (auto simp: Let_def)
























































end
